theory Spec2Isabelle
  imports Complex_Main
begin

section \<open>Cards, hands and participants\<close>

text \<open>
  The blackjack state machine of \<^verbatim>\<open>cardsharp/blackjack/state.py\<close> and the session
  of \<^verbatim>\<open>cardsharp/blackjack/blackjack.py\<close> work on players, a dealer, hands and a deck
  whose classes live in modules that are not part of the sources at hand
  (\<^verbatim>\<open>blackjack/actor.py\<close>, \<^verbatim>\<open>common/deck.py\<close>, \<^verbatim>\<open>common/card.py\<close>). The state
  machine itself is translated from the source; the collaborators are either
  parameters (record \<open>env\<close> below) or small definitions modelled from the
  specification, each marked as such.
\<close>

datatype rank =
  Ace | Two | Three | Four | Five | Six | Seven | Eight | Nine | Ten | Jack | Queen | King

datatype suit = Clubs | Diamonds | Hearts | Spades

datatype card = Card rank suit

text \<open>
  Modelled from the spec: class \<^verbatim>\<open>Player\<close> of \<^verbatim>\<open>blackjack/actor.py\<close> is missing.
  The fields are the attributes \<^verbatim>\<open>state.py\<close> reads and writes (\<^verbatim>\<open>name\<close>,
  \<^verbatim>\<open>current_hand\<close>, \<^verbatim>\<open>bet\<close>, \<^verbatim>\<open>blackjack\<close>, \<^verbatim>\<open>winner\<close>) and the attributes the
  specification gives a participant: the bankroll (\<open>money\<close>), the insurance
  amount and the flag behind \<^verbatim>\<open>is_done()\<close> (\<open>standing\<close>). The list \<open>payouts\<close>
  records the amounts handed to \<^verbatim>\<open>player.payout\<close>, oldest first, so that the
  number of payouts a player received can be stated.
\<close>

record player =
  name :: string
  current_hand :: "card list"
  bet :: real
  money :: real
  insurance :: real
  blackjack :: bool
  winner :: "string option"
  standing :: bool
  payouts :: "real list"

text \<open>
  Modelled from the spec: class \<^verbatim>\<open>Dealer\<close> of \<^verbatim>\<open>blackjack/actor.py\<close> is missing.
  \<^verbatim>\<open>state.py\<close> uses its hand and writes its \<^verbatim>\<open>winner\<close> attribute.
\<close>

record dealer =
  dealer_hand :: "card list"
  dealer_winner :: "string option"

text \<open>
  The collaborators whose code is missing and on which the state machine only
  calls a query: \<^verbatim>\<open>Hand.value()\<close>, \<^verbatim>\<open>Dealer.has_ace()\<close>, \<^verbatim>\<open>Dealer.should_hit()\<close>,
  \<^verbatim>\<open>Player.decide_action()\<close>, and the order of the deck that
  \<^verbatim>\<open>deck.reset(); deck.shuffle()\<close> produces. They are parameters of the model.
\<close>

record env =
  hand_value :: "card list \<Rightarrow> int"
  has_ace :: "card list \<Rightarrow> bool"
  should_hit :: "card list \<Rightarrow> bool"
  decide_action :: "player \<Rightarrow> string"
  shuffled :: "card list"

text \<open>
  Modelled from the spec: \<^verbatim>\<open>Player.place_bet\<close> is missing. The stake is escrowed:
  it becomes the bet and leaves the bankroll.
\<close>

definition place_bet :: "real \<Rightarrow> player \<Rightarrow> player" where
  "place_bet amount p = p\<lparr>bet := amount, money := money p - amount\<rparr>"

text \<open>
  Modelled from the spec: \<^verbatim>\<open>Player.payout\<close> is missing. The amount is credited
  to the bankroll, and recorded.
\<close>

definition payout :: "real \<Rightarrow> player \<Rightarrow> player" where
  "payout amount p = p\<lparr>money := money p + amount, payouts := payouts p @ [amount]\<rparr>"

text \<open>
  Modelled from the spec: \<^verbatim>\<open>Player.buy_insurance\<close> is missing. The player wagers
  the insurance stake.
\<close>

definition buy_insurance :: "real \<Rightarrow> player \<Rightarrow> player" where
  "buy_insurance amount p = p\<lparr>insurance := amount, money := money p - amount\<rparr>"

text \<open>
  Modelled from the spec: \<^verbatim>\<open>add_card\<close>, \<^verbatim>\<open>stand\<close>, \<^verbatim>\<open>is_done\<close> and \<^verbatim>\<open>is_busted\<close>
  of the missing actor classes. A hand is an ordered sequence of cards, a new
  card goes to its end; a hand is bust when its value exceeds 21.
\<close>

definition add_card :: "card \<Rightarrow> player \<Rightarrow> player" where
  "add_card c p = p\<lparr>current_hand := current_hand p @ [c]\<rparr>"

definition dealer_add_card :: "card \<Rightarrow> dealer \<Rightarrow> dealer" where
  "dealer_add_card c d = d\<lparr>dealer_hand := dealer_hand d @ [c]\<rparr>"

definition stand :: "player \<Rightarrow> player" where
  "stand p = p\<lparr>standing := True\<rparr>"

definition is_done :: "player \<Rightarrow> bool" where
  "is_done p = standing p"

definition is_busted :: "env \<Rightarrow> player \<Rightarrow> bool" where
  "is_busted E p = (hand_value E (current_hand p) > 21)"

section \<open>The session and its statistics\<close>

datatype round_state =
  WaitingForPlayersState
  | PlacingBetsState
  | DealingState
  | OfferInsuranceState
  | PlayersTurnState
  | DealersTurnState
  | EndRoundState

record simulation_stats =
  games_played :: int
  player_wins :: int
  dealer_wins :: int
  draws :: int

text \<open>
  \<^verbatim>\<open>BlackjackGame\<close>. The \<^verbatim>\<open>rules\<close> dictionary maps a rule name to a number; the
  deck is the list of cards still to be dealt, next card first. The players of
  the list are distinct objects. Messages sent to \<^verbatim>\<open>io_interface.output\<close> are
  not part of the state (the simulation runs with a sink that drops them);
  \<open>add_player\<close> below returns the message it reports.
\<close>

record game =
  players :: "player list"
  dealer :: dealer
  rules :: "string \<rightharpoonup> real"
  deck :: "card list"
  current_state :: round_state
  stats :: simulation_stats

definition set_state :: "round_state \<Rightarrow> game \<Rightarrow> game" where
  "set_state s g = g\<lparr>current_state := s\<rparr>"

text \<open>\<^verbatim>\<open>SimulationStats.update\<close>.\<close>

definition update :: "game \<Rightarrow> game" where
  "update g =
     (let s0 = stats g;
          s1 = s0\<lparr>games_played := games_played s0 + 1\<rparr>;
          player_win = list_ex (\<lambda>p. winner p = Some ''player'') (players g);
          dealer_win = list_ex (\<lambda>p. winner p = Some ''dealer'') (players g);
          draw = list_ex (\<lambda>p. winner p = Some ''draw'') (players g);
          s2 = (if player_win then s1\<lparr>player_wins := player_wins s1 + 1\<rparr> else s1);
          s3 = (if dealer_win then s2\<lparr>dealer_wins := dealer_wins s2 + 1\<rparr> else s2);
          s4 = (if draw then s3\<lparr>draws := draws s3 + 1\<rparr> else s3)
      in g\<lparr>stats := s4, players := map (\<lambda>p. p\<lparr>winner := None\<rparr>) (players g)\<rparr>)"

section \<open>Dealing and the blackjack check\<close>

datatype error = DeckExhausted | IndexError | KeyError

text \<open>
  Modelled from the spec: \<^verbatim>\<open>Deck.deal\<close> is missing. It hands out the next card;
  an exhausted deck is a fatal error.
\<close>

definition deal_card :: "card list \<Rightarrow> error + (card \<times> card list)" where
  "deal_card d = (case d of [] \<Rightarrow> Inl DeckExhausted | c # cs \<Rightarrow> Inr (c, cs))"

text \<open>The first loop of \<^verbatim>\<open>DealingState.check_blackjack\<close>, for one player.\<close>

definition pay_blackjack :: "env \<Rightarrow> player \<Rightarrow> player" where
  "pay_blackjack E p =
     (if hand_value E (current_hand p) = 21
      then (payout (bet p * 1.5) p)\<lparr>blackjack := True, winner := Some ''player''\<rparr>
      else p)"

text \<open>
  The loop under \<^verbatim>\<open>if game.dealer.current_hand.value() == 21\<close>: it threads the
  statistics and the local flag \<^verbatim>\<open>dealer_win\<close> through the players.
\<close>

fun dealer_blackjack_loop ::
  "player list \<Rightarrow> simulation_stats \<Rightarrow> bool \<Rightarrow> player list \<times> simulation_stats \<times> bool" where
  "dealer_blackjack_loop [] s dealer_win = ([], s, dealer_win)"
| "dealer_blackjack_loop (p # ps) s dealer_win =
     (if blackjack p
      then (case dealer_blackjack_loop ps (s\<lparr>draws := draws s + 1\<rparr>) False of
              (ps', s', dw') \<Rightarrow> (p # ps', s', dw'))
      else (case dealer_blackjack_loop ps s dealer_win of
              (ps', s', dw') \<Rightarrow> (p\<lparr>winner := Some ''dealer''\<rparr> # ps', s', dw')))"

definition check_blackjack :: "env \<Rightarrow> game \<Rightarrow> game" where
  "check_blackjack E g =
     (let g1 = g\<lparr>players := map (pay_blackjack E) (players g)\<rparr>
      in if hand_value E (dealer_hand (dealer g1)) = 21
         then (case dealer_blackjack_loop (players g1) (stats g1) True of
                 (ps', s', dealer_win) \<Rightarrow>
                   g1\<lparr>players := ps', stats := s',
                      dealer := (if dealer_win
                                 then (dealer g1)\<lparr>dealer_winner := Some ''dealer''\<rparr>
                                 else dealer g1)\<rparr>)
         else g1)"

section \<open>Settlement\<close>

text \<open>The body of the loop of \<^verbatim>\<open>EndRoundState.calculate_winner\<close>, for one player.\<close>

definition settle_player :: "env \<Rightarrow> int \<Rightarrow> player \<Rightarrow> player" where
  "settle_player E dealer_hand_value p =
     (let player_hand_value = hand_value E (current_hand p)
      in if player_hand_value > 21 then p\<lparr>winner := Some ''dealer''\<rparr>
         else if dealer_hand_value > 21 \<or> player_hand_value > dealer_hand_value
         then (payout (bet p * 2) p)\<lparr>winner := Some ''player''\<rparr>
         else if player_hand_value < dealer_hand_value then p\<lparr>winner := Some ''dealer''\<rparr>
         else (payout (bet p) p)\<lparr>winner := Some ''draw''\<rparr>)"

definition calculate_winner :: "env \<Rightarrow> game \<Rightarrow> game" where
  "calculate_winner E g =
     (let dealer_hand_value = hand_value E (dealer_hand (dealer g))
      in set_state PlacingBetsState
           (g\<lparr>players := map (settle_player E dealer_hand_value) (players g)\<rparr>))"

section \<open>The handlers of the round states\<close>

text \<open>
  \<^verbatim>\<open>WaitingForPlayersState.handle\<close> is a coroutine function (\<^verbatim>\<open>async def\<close>);
  \<^verbatim>\<open>play_round\<close> calls it without awaiting it, which only creates the coroutine
  object: the body does not run and the game is unchanged.
\<close>

definition waiting_for_players_handle :: "game \<Rightarrow> game" where
  "waiting_for_players_handle g = g"

text \<open>\<^verbatim>\<open>PlacingBetsState.handle\<close>.\<close>

definition placing_bets_handle :: "game \<Rightarrow> game" where
  "placing_bets_handle g =
     set_state DealingState (g\<lparr>players := map (place_bet 10) (players g)\<rparr>)"

text \<open>
  \<^verbatim>\<open>DealingState.deal\<close>: the inner loop over the players, then the dealer, run
  twice. A failing \<^verbatim>\<open>deck.deal()\<close> aborts the handler.
\<close>

fun deal_players :: "card list \<Rightarrow> player list \<Rightarrow> error + (card list \<times> player list)" where
  "deal_players d [] = Inr (d, [])"
| "deal_players d (p # ps) =
     (case deal_card d of
        Inl e \<Rightarrow> Inl e
      | Inr (c, d') \<Rightarrow>
          (case deal_players d' ps of
             Inl e \<Rightarrow> Inl e
           | Inr (d'', ps') \<Rightarrow> Inr (d'', add_card c p # ps')))"

definition deal_pass :: "game \<Rightarrow> error + game" where
  "deal_pass g =
     (case deal_players (deck g) (players g) of
        Inl e \<Rightarrow> Inl e
      | Inr (d', ps') \<Rightarrow>
          (case deal_card d' of
             Inl e \<Rightarrow> Inl e
           | Inr (c, d'') \<Rightarrow>
               Inr (g\<lparr>deck := d'', players := ps', dealer := dealer_add_card c (dealer g)\<rparr>)))"

definition deal :: "game \<Rightarrow> error + game" where
  "deal g = (case deal_pass g of Inl e \<Rightarrow> Inl e | Inr g1 \<Rightarrow> deal_pass g1)"

text \<open>
  \<^verbatim>\<open>DealingState.handle\<close>. \<^verbatim>\<open>deck.reset()\<close> followed by \<^verbatim>\<open>deck.shuffle()\<close> leaves
  the deck in the order \<open>shuffled E\<close>.
\<close>

definition dealing_handle :: "env \<Rightarrow> game \<Rightarrow> error + game" where
  "dealing_handle E g =
     (case deal (g\<lparr>deck := shuffled E\<rparr>) of
        Inl e \<Rightarrow> Inl e
      | Inr g1 \<Rightarrow> Inr (set_state OfferInsuranceState (check_blackjack E g1)))"

text \<open>
  \<^verbatim>\<open>OfferInsuranceState\<close>. After the offers the handler prints the dealer's
  first card, \<^verbatim>\<open>cards[0]\<close>, which fails on an empty hand.
\<close>

definition offer_insurance :: "env \<Rightarrow> game \<Rightarrow> player \<Rightarrow> player" where
  "offer_insurance E g p =
     (if has_ace E (dealer_hand (dealer g)) then buy_insurance 10 p else p)"

definition offer_insurance_handle :: "env \<Rightarrow> game \<Rightarrow> error + game" where
  "offer_insurance_handle E g =
     (let g1 = g\<lparr>players := map (offer_insurance E g) (players g)\<rparr>
      in case dealer_hand (dealer g1) of
           [] \<Rightarrow> Inl IndexError
         | c # cs \<Rightarrow> Inr (set_state PlayersTurnState g1))"

text \<open>
  \<^verbatim>\<open>PlayersTurnState.handle\<close>, the \<^verbatim>\<open>while not player.is_done()\<close> loop of one
  player. An action that is neither \<^verbatim>\<open>"hit"\<close> nor \<^verbatim>\<open>"stand"\<close> changes nothing
  and the loop comes round again, so the loop need not return: \<open>None\<close> is
  the run that never ends.
\<close>

partial_function (option) player_turn ::
  "env \<Rightarrow> card list \<Rightarrow> player \<Rightarrow> (error + card list \<times> player) option" where
  "player_turn E d p =
     (if is_done p then Some (Inr (d, p))
      else if decide_action E p = ''hit'' then
        (case deal_card d of
           Inl e \<Rightarrow> Some (Inl e)
         | Inr (c, d') \<Rightarrow>
             (if is_busted E (add_card c p) then Some (Inr (d', stand (add_card c p)))
              else if hand_value E (current_hand (add_card c p)) = 21
              then Some (Inr (d', stand (add_card c p)))
              else player_turn E d' (add_card c p)))
      else if decide_action E p = ''stand'' then Some (Inr (d, stand p))
      else player_turn E d p)"

fun players_turn ::
  "env \<Rightarrow> card list \<Rightarrow> player list \<Rightarrow> (error + card list \<times> player list) option" where
  "players_turn E d [] = Some (Inr (d, []))"
| "players_turn E d (p # ps) =
     (case player_turn E d p of
        None \<Rightarrow> None
      | Some (Inl e) \<Rightarrow> Some (Inl e)
      | Some (Inr (d', p')) \<Rightarrow>
          (case players_turn E d' ps of
             None \<Rightarrow> None
           | Some (Inl e) \<Rightarrow> Some (Inl e)
           | Some (Inr (d'', ps')) \<Rightarrow> Some (Inr (d'', p' # ps'))))"

definition players_turn_handle :: "env \<Rightarrow> game \<Rightarrow> (error + game) option" where
  "players_turn_handle E g =
     (case players_turn E (deck g) (players g) of
        None \<Rightarrow> None
      | Some (Inl e) \<Rightarrow> Some (Inl e)
      | Some (Inr (d', ps')) \<Rightarrow>
          Some (Inr (set_state DealersTurnState (g\<lparr>deck := d', players := ps'\<rparr>))))"

text \<open>
  \<^verbatim>\<open>DealersTurnState.handle\<close>: \<^verbatim>\<open>while game.dealer.should_hit(): dealer_action\<close>.
  Every turn of the loop takes a card off the deck, so the loop ends.
\<close>

function dealers_loop :: "env \<Rightarrow> card list \<Rightarrow> dealer \<Rightarrow> error + (card list \<times> dealer)" where
  "dealers_loop E d dl =
     (if should_hit E (dealer_hand dl)
      then (case deal_card d of
              Inl e \<Rightarrow> Inl e
            | Inr (c, d') \<Rightarrow> dealers_loop E d' (dealer_add_card c dl))
      else Inr (d, dl))"
  by pat_completeness auto
termination
  by (relation "measure (\<lambda>(E, d, dl). length d)")
     (auto simp add: deal_card_def split: list.splits)

definition dealers_turn_handle :: "env \<Rightarrow> game \<Rightarrow> error + game" where
  "dealers_turn_handle E g =
     (case dealers_loop E (deck g) (dealer g) of
        Inl e \<Rightarrow> Inl e
      | Inr (d', dl') \<Rightarrow> Inr (set_state EndRoundState (g\<lparr>deck := d', dealer := dl'\<rparr>)))"

text \<open>\<^verbatim>\<open>EndRoundState.handle\<close>.\<close>

definition end_round_handle :: "env \<Rightarrow> game \<Rightarrow> game" where
  "end_round_handle E g = update (calculate_winner E g)"

text \<open>\<^verbatim>\<open>self.current_state.handle(self)\<close>: the handler of the active state.\<close>

definition handle :: "env \<Rightarrow> game \<Rightarrow> (error + game) option" where
  "handle E g =
     (case current_state g of
        WaitingForPlayersState \<Rightarrow> Some (Inr (waiting_for_players_handle g))
      | PlacingBetsState \<Rightarrow> Some (Inr (placing_bets_handle g))
      | DealingState \<Rightarrow> Some (dealing_handle E g)
      | OfferInsuranceState \<Rightarrow> Some (offer_insurance_handle E g)
      | PlayersTurnState \<Rightarrow> players_turn_handle E g
      | DealersTurnState \<Rightarrow> Some (dealers_turn_handle E g)
      | EndRoundState \<Rightarrow> Some (Inr (end_round_handle E g)))"

section \<open>The session: joining and playing a round\<close>

text \<open>
  \<^verbatim>\<open>WaitingForPlayersState.add_player\<close> and \<^verbatim>\<open>BlackjackGame.add_player\<close>. The
  result is the message reported to the output and the game afterwards; the
  only exception is the lookup of a \<^verbatim>\<open>"max_players"\<close> rule that is not there.
\<close>

definition waiting_add_player :: "game \<Rightarrow> player \<Rightarrow> string \<times> game" where
  "waiting_add_player g p =
     (name p @ '' has joined the game.'', g\<lparr>players := players g @ [p]\<rparr>)"

definition add_player :: "game \<Rightarrow> player option \<Rightarrow> error + (string \<times> game)" where
  "add_player g pl =
     (case pl of
        None \<Rightarrow> Inr (''Invalid player.'', g)
      | Some p \<Rightarrow>
          (case rules g ''max_players'' of
             None \<Rightarrow> Inl KeyError
           | Some m \<Rightarrow>
               if real (length (players g)) \<ge> m then Inr (''Game is full.'', g)
               else if current_state g \<noteq> WaitingForPlayersState
               then Inr (''Game has already started.'', g)
               else Inr (waiting_add_player g p)))"

text \<open>
  \<^verbatim>\<open>BlackjackGame.play_round\<close>: handlers run until the state is
  \<^verbatim>\<open>EndRoundState\<close>, then that state's handler runs once.
\<close>

partial_function (option) play_loop :: "env \<Rightarrow> game \<Rightarrow> (error + game) option" where
  "play_loop E g =
     (if current_state g = EndRoundState then Some (Inr g)
      else (case handle E g of
              None \<Rightarrow> None
            | Some (Inl e) \<Rightarrow> Some (Inl e)
            | Some (Inr g') \<Rightarrow> play_loop E g'))"

definition play_round :: "env \<Rightarrow> game \<Rightarrow> (error + game) option" where
  "play_round E g =
     (case play_loop E g of
        None \<Rightarrow> None
      | Some (Inl e) \<Rightarrow> Some (Inl e)
      | Some (Inr g') \<Rightarrow> handle E g')"

text \<open>
  Modelled from the spec: \<^verbatim>\<open>Player.reset\<close> is missing. The hand and the
  per-round flags are reset; bankroll and bet persist.
\<close>

definition player_reset :: "player \<Rightarrow> player" where
  "player_reset p =
     p\<lparr>current_hand := [], insurance := 0, blackjack := False, winner := None,
       standing := False\<rparr>"

text \<open>\<^verbatim>\<open>BlackjackGame.reset\<close>; \<open>fresh\<close> is the content of the new \<^verbatim>\<open>Deck()\<close>.\<close>

definition reset :: "card list \<Rightarrow> game \<Rightarrow> game" where
  "reset fresh g = g\<lparr>deck := fresh, players := map player_reset (players g)\<rparr>"

section \<open>A reference environment\<close>

text \<open>
  Modelled from the spec: the hand evaluator (\<^verbatim>\<open>Hand.value\<close>), the dealer's
  queries and a player policy, all missing from the sources. An ace counts 1,
  a face card 10; ten more are added when the hand holds an ace and stays at
  21 or below. The dealer shows an ace when the first card is one, and draws
  below 17. The sample player draws below 17 and stands otherwise. The
  examples run the state machine in this environment.
\<close>

fun card_points :: "card \<Rightarrow> int" where
  "card_points (Card Ace s) = 1"
| "card_points (Card Two s) = 2"
| "card_points (Card Three s) = 3"
| "card_points (Card Four s) = 4"
| "card_points (Card Five s) = 5"
| "card_points (Card Six s) = 6"
| "card_points (Card Seven s) = 7"
| "card_points (Card Eight s) = 8"
| "card_points (Card Nine s) = 9"
| "card_points (Card r s) = 10"

fun is_ace :: "card \<Rightarrow> bool" where
  "is_ace (Card r s) = (r = Ace)"

definition blackjack_value :: "card list \<Rightarrow> int" where
  "blackjack_value cs =
     (let hard = sum_list (map card_points cs)
      in if list_ex is_ace cs \<and> hard + 10 \<le> 21 then hard + 10 else hard)"

definition shows_ace :: "card list \<Rightarrow> bool" where
  "shows_ace cs = (case cs of [] \<Rightarrow> False | c # rest \<Rightarrow> is_ace c)"

definition reference_env :: "card list \<Rightarrow> env" where
  "reference_env d =
     \<lparr>hand_value = blackjack_value,
      has_ace = shows_ace,
      should_hit = (\<lambda>cs. blackjack_value cs < 17),
      decide_action = (\<lambda>p. if blackjack_value (current_hand p) < 17 then ''hit'' else ''stand''),
      shuffled = d\<rparr>"

section \<open>The high-card game\<close>

text \<open>
  \<^verbatim>\<open>cardsharp/high_card/high_card.py\<close>. \<^verbatim>\<open>HighCardGameState\<close> keeps three
  dictionaries keyed by player name.
\<close>

record high_card_game_state =
  rounds_played :: int
  wins :: "string \<rightharpoonup> int"
  current_streak :: "string \<rightharpoonup> int"
  max_streak :: "string \<rightharpoonup> int"

text \<open>\<^verbatim>\<open>dict.get(key, default)\<close>.\<close>

definition dict_get :: "('k \<rightharpoonup> 'v) \<Rightarrow> 'k \<Rightarrow> 'v \<Rightarrow> 'v" where
  "dict_get m k dflt = (case m k of None \<Rightarrow> dflt | Some v \<Rightarrow> v)"

text \<open>
  The dictionary handed to \<^verbatim>\<open>update_state\<close>: each of the four keys may be
  there or not.
\<close>

record new_state =
  new_rounds_played :: "int option"
  new_wins :: "(string \<rightharpoonup> int) option"
  new_current_streak :: "(string \<rightharpoonup> int) option"
  new_max_streak :: "(string \<rightharpoonup> int) option"

definition update_state :: "high_card_game_state \<Rightarrow> new_state \<Rightarrow> high_card_game_state" where
  "update_state gs ns =
     gs\<lparr>rounds_played := dict_get new_rounds_played ns (rounds_played gs),
        wins := dict_get new_wins ns (wins gs),
        current_streak := dict_get new_current_streak ns (current_streak gs),
        max_streak := dict_get new_max_streak ns (max_streak gs)\<rparr>"

text \<open>
  Modelled from the spec: class \<^verbatim>\<open>SimplePlayer\<close> of \<^verbatim>\<open>common/actor.py\<close> is
  missing. A player has a name and hands; \<^verbatim>\<open>reset_hands()\<close> leaves one empty
  hand, which then takes the drawn card.
\<close>

record simple_player =
  player_name :: string
  hands :: "card list list"

definition draw :: "card \<Rightarrow> simple_player \<Rightarrow> simple_player" where
  "draw c p = p\<lparr>hands := [[c]]\<rparr>"

fun rank_of :: "card \<Rightarrow> rank" where
  "rank_of (Card r s) = r"

record high_card_game =
  hc_deck :: "card list"
  game_state :: high_card_game_state

text \<open>
  The loop of \<^verbatim>\<open>HighCardGame.play_round\<close> over the shuffled players, with the
  locals \<^verbatim>\<open>high_card\<close> and \<^verbatim>\<open>winner\<close>, which are \<^verbatim>\<open>None\<close> or an object (a card
  and a player count as true). The order \<open>gt\<close> is the comparison
  \<^verbatim>\<open>drawn_card.rank > high_card.rank\<close> of the missing rank type.
\<close>

fun draw_loop ::
  "(rank \<Rightarrow> rank \<Rightarrow> bool) \<Rightarrow> card list \<Rightarrow> simple_player list \<Rightarrow> card option \<Rightarrow>
   simple_player option \<Rightarrow> error + (card list \<times> simple_player list \<times> simple_player option)" where
  "draw_loop gt d [] high_card w = Inr (d, [], w)"
| "draw_loop gt d (p # ps) high_card w =
     (case deal_card d of
        Inl e \<Rightarrow> Inl e
      | Inr (drawn_card, d') \<Rightarrow>
          (case (if (case high_card of
                       None \<Rightarrow> True
                     | Some h \<Rightarrow> gt (rank_of drawn_card) (rank_of h))
                 then draw_loop gt d' ps (Some drawn_card) (Some (draw drawn_card p))
                 else draw_loop gt d' ps high_card w) of
             Inl e \<Rightarrow> Inl e
           | Inr (d'', ps', w') \<Rightarrow> Inr (d'', draw drawn_card p # ps', w')))"

text \<open>The state the round hands to \<^verbatim>\<open>update_state\<close> when there is a winner.\<close>

definition round_update :: "high_card_game_state \<Rightarrow> string \<Rightarrow> new_state" where
  "round_update gs wn =
     \<lparr>new_rounds_played = Some (rounds_played gs + 1),
      new_wins = Some ((wins gs)(wn \<mapsto> dict_get (wins gs) wn 0 + 1)),
      new_current_streak =
        Some ((\<lambda>n. if n \<noteq> wn then map_option (\<lambda>v. 0) (current_streak gs n) else None)
                (wn \<mapsto> dict_get (current_streak gs) wn 0 + 1)),
      new_max_streak =
        Some ((\<lambda>n. if n \<noteq> wn
                    then map_option (\<lambda>v. dict_get (max_streak gs) n 0) (max_streak gs n)
                    else None)
                (wn \<mapsto> max (dict_get (max_streak gs) wn 0)
                             (dict_get (current_streak gs) wn 0 + 1)))\<rparr>"

text \<open>
  \<^verbatim>\<open>HighCardGame.play_round\<close>. \<open>fresh\<close> is the deck after \<^verbatim>\<open>deck.reset()\<close>,
  \<open>player_list\<close> the players in the order \<^verbatim>\<open>random.shuffle\<close> left them in. The
  result is the returned winner, the players after their draws and the game.
\<close>

definition high_card_play_round ::
  "(rank \<Rightarrow> rank \<Rightarrow> bool) \<Rightarrow> card list \<Rightarrow> simple_player list \<Rightarrow> high_card_game \<Rightarrow>
   error + (simple_player option \<times> simple_player list \<times> high_card_game)" where
  "high_card_play_round gt fresh player_list g =
     (case draw_loop gt fresh player_list None None of
        Inl e \<Rightarrow> Inl e
      | Inr (d', ps', w) \<Rightarrow>
          (case w of
             None \<Rightarrow> Inr (None, ps', g\<lparr>hc_deck := d'\<rparr>)
           | Some wp \<Rightarrow>
               Inr (Some wp, ps',
                    g\<lparr>hc_deck := d',
                      game_state := update_state (game_state g)
                                      (round_update (game_state g) (player_name wp))\<rparr>)))"

section \<open>Sample sessions\<close>

text \<open>
  \<^verbatim>\<open>BlackjackGame.__init__\<close>, with the content of the new deck as a parameter,
  and a new player with a bankroll (modelled from the spec: the constructor of
  \<^verbatim>\<open>Player\<close> is missing).
\<close>

definition new_game :: "(string \<rightharpoonup> real) \<Rightarrow> card list \<Rightarrow> game" where
  "new_game rl fresh =
     \<lparr>players = [],
      dealer = \<lparr>dealer_hand = [], dealer_winner = None\<rparr>,
      rules = rl,
      deck = fresh,
      current_state = WaitingForPlayersState,
      stats = \<lparr>games_played = 0, player_wins = 0, dealer_wins = 0, draws = 0\<rparr>\<rparr>"

definition new_player :: "string \<Rightarrow> real \<Rightarrow> player" where
  "new_player nm m =
     \<lparr>name = nm, current_hand = [], bet = 0, money = m, insurance = 0, blackjack = False,
      winner = None, standing = False, payouts = []\<rparr>"

text \<open>The rules of \<^verbatim>\<open>main()\<close>; \<^verbatim>\<open>True\<close> is the number 1.\<close>

definition main_rules :: "string \<rightharpoonup> real" where
  "main_rules =
     [''blackjack_payout'' \<mapsto> 1.5, ''allow_insurance'' \<mapsto> 1, ''min_players'' \<mapsto> 1,
      ''min_bet'' \<mapsto> 10, ''max_players'' \<mapsto> 6]"

text \<open>
  The 52 cards, and the shuffles that bring chosen cards to the front of them.
\<close>

definition full_deck :: "card list" where
  "full_deck =
     concat (map (\<lambda>s. map (\<lambda>r. Card r s)
                        [Ace, Two, Three, Four, Five, Six, Seven, Eight, Nine, Ten, Jack,
                         Queen, King])
                 [Clubs, Diamonds, Hearts, Spades])"

definition rest_of :: "card list \<Rightarrow> card list" where
  "rest_of front = filter (\<lambda>c. c \<notin> set front) full_deck"

definition stacked :: "card list \<Rightarrow> card list" where
  "stacked front = front @ rest_of front"

text \<open>
  The session of \<^verbatim>\<open>main()\<close> when the rounds begin: Bob has joined and the state
  has been set to \<^verbatim>\<open>PlacingBetsState\<close>.
\<close>

definition bob_at_table :: game where
  "bob_at_table =
     set_state PlacingBetsState
       ((new_game main_rules full_deck)\<lparr>players := [new_player ''Bob'' 1000]\<rparr>)"

text \<open>
  Three shuffles. Cards go to Bob, the dealer, Bob, the dealer. In the first
  Bob holds a natural against the dealer's 19; in the second both hold a
  natural; in the third Bob holds 19 against the dealer's natural.
\<close>

definition natural_deck :: "card list" where
  "natural_deck = stacked [Card Ace Spades, Card Ten Hearts, Card King Spades, Card Nine Hearts]"

definition tie_deck :: "card list" where
  "tie_deck = stacked [Card Ace Spades, Card Ace Hearts, Card King Spades, Card King Hearts]"

definition insurance_deck :: "card list" where
  "insurance_deck = stacked [Card Ten Spades, Card Ace Hearts, Card Nine Spades, Card King Hearts]"

text \<open>
  The states these rounds pass through: after the dealing handler, after the
  insurance offer, and when \<^verbatim>\<open>play_round\<close> has returned.
\<close>

definition natural_dealt :: game where
  "natural_dealt =
     bob_at_table
       \<lparr>players :=
          [(new_player ''Bob'' 1000)
             \<lparr>current_hand := [Card Ace Spades, Card King Spades], bet := 10, money := 1005,
              blackjack := True, winner := Some ''player'', payouts := [15]\<rparr>],
        dealer := \<lparr>dealer_hand = [Card Ten Hearts, Card Nine Hearts], dealer_winner = None\<rparr>,
        deck := rest_of [Card Ace Spades, Card Ten Hearts, Card King Spades, Card Nine Hearts],
        current_state := OfferInsuranceState\<rparr>"

definition natural_settled :: game where
  "natural_settled =
     natural_dealt
       \<lparr>players :=
          [(new_player ''Bob'' 1000)
             \<lparr>current_hand := [Card Ace Spades, Card King Spades], bet := 10, money := 1025,
              blackjack := True, winner := None, standing := True, payouts := [15, 20]\<rparr>],
        current_state := PlacingBetsState,
        stats := \<lparr>games_played = 1, player_wins = 1, dealer_wins = 0, draws = 0\<rparr>\<rparr>"

definition tie_dealt :: game where
  "tie_dealt =
     bob_at_table
       \<lparr>players :=
          [(new_player ''Bob'' 1000)
             \<lparr>current_hand := [Card Ace Spades, Card King Spades], bet := 10, money := 1005,
              blackjack := True, winner := Some ''player'', payouts := [15]\<rparr>],
        dealer := \<lparr>dealer_hand = [Card Ace Hearts, Card King Hearts], dealer_winner = None\<rparr>,
        deck := rest_of [Card Ace Spades, Card Ace Hearts, Card King Spades, Card King Hearts],
        current_state := OfferInsuranceState,
        stats := \<lparr>games_played = 0, player_wins = 0, dealer_wins = 0, draws = 1\<rparr>\<rparr>"

definition tie_settled :: game where
  "tie_settled =
     tie_dealt
       \<lparr>players :=
          [(new_player ''Bob'' 1000)
             \<lparr>current_hand := [Card Ace Spades, Card King Spades], bet := 10, money := 1005,
              insurance := 10, blackjack := True, winner := None, standing := True,
              payouts := [15, 10]\<rparr>],
        current_state := PlacingBetsState,
        stats := \<lparr>games_played = 1, player_wins = 0, dealer_wins = 0, draws = 2\<rparr>\<rparr>"

definition insurance_dealt :: game where
  "insurance_dealt =
     bob_at_table
       \<lparr>players :=
          [(new_player ''Bob'' 1000)
             \<lparr>current_hand := [Card Ten Spades, Card Nine Spades], bet := 10, money := 990,
              winner := Some ''dealer''\<rparr>],
        dealer :=
          \<lparr>dealer_hand = [Card Ace Hearts, Card King Hearts], dealer_winner = Some ''dealer''\<rparr>,
        deck := rest_of [Card Ten Spades, Card Ace Hearts, Card Nine Spades, Card King Hearts],
        current_state := OfferInsuranceState\<rparr>"

definition insurance_offered :: game where
  "insurance_offered =
     insurance_dealt
       \<lparr>players :=
          [(new_player ''Bob'' 1000)
             \<lparr>current_hand := [Card Ten Spades, Card Nine Spades], bet := 10, money := 980,
              insurance := 10, winner := Some ''dealer''\<rparr>],
        current_state := PlayersTurnState\<rparr>"

definition insurance_settled :: game where
  "insurance_settled =
     insurance_offered
       \<lparr>players :=
          [(new_player ''Bob'' 1000)
             \<lparr>current_hand := [Card Ten Spades, Card Nine Spades], bet := 10, money := 980,
              insurance := 10, winner := None, standing := True\<rparr>],
        current_state := PlacingBetsState,
        stats := \<lparr>games_played = 1, player_wins = 0, dealer_wins = 1, draws = 0\<rparr>\<rparr>"

text \<open>
  A fourth shuffle, in which the dealer holds 16 and draws a five: the state
  when the dealer's turn begins and the state when it has ended.
\<close>

definition drawing_deck :: "card list" where
  "drawing_deck =
     stacked [Card Ten Spades, Card Ten Hearts, Card Nine Spades, Card Six Hearts,
              Card Five Clubs]"

definition drawing_stood :: game where
  "drawing_stood =
     bob_at_table
       \<lparr>players :=
          [(new_player ''Bob'' 1000)
             \<lparr>current_hand := [Card Ten Spades, Card Nine Spades], bet := 10, money := 990,
              standing := True\<rparr>],
        dealer := \<lparr>dealer_hand = [Card Ten Hearts, Card Six Hearts], dealer_winner = None\<rparr>,
        deck :=
          Card Five Clubs
            # rest_of [Card Ten Spades, Card Ten Hearts, Card Nine Spades, Card Six Hearts,
                       Card Five Clubs],
        current_state := DealersTurnState\<rparr>"

definition drawing_drawn :: game where
  "drawing_drawn =
     drawing_stood
       \<lparr>dealer :=
          \<lparr>dealer_hand = [Card Ten Hearts, Card Six Hearts, Card Five Clubs],
           dealer_winner = None\<rparr>,
        deck :=
          rest_of [Card Ten Spades, Card Ten Hearts, Card Nine Spades, Card Six Hearts,
                   Card Five Clubs],
        current_state := EndRoundState\<rparr>"

text \<open>
  \<^verbatim>\<open>HighCardGameState.__init__\<close>, and a sample round of the high-card game:
  Bob draws the five of hearts, then Alice the king of spades. The ranks are
  compared with the ace high (a sample order: the rank type is missing).
\<close>

definition new_high_card_game_state :: "string list \<Rightarrow> high_card_game_state" where
  "new_high_card_game_state player_names =
     \<lparr>rounds_played = 0,
      wins = map_of (map (\<lambda>n. (n, 0)) player_names),
      current_streak = map_of (map (\<lambda>n. (n, 0)) player_names),
      max_streak = map_of (map (\<lambda>n. (n, 0)) player_names)\<rparr>"

fun ace_high :: "rank \<Rightarrow> nat" where
  "ace_high Two = 2"
| "ace_high Three = 3"
| "ace_high Four = 4"
| "ace_high Five = 5"
| "ace_high Six = 6"
| "ace_high Seven = 7"
| "ace_high Eight = 8"
| "ace_high Nine = 9"
| "ace_high Ten = 10"
| "ace_high Jack = 11"
| "ace_high Queen = 12"
| "ace_high King = 13"
| "ace_high Ace = 14"

definition rank_gt :: "rank \<Rightarrow> rank \<Rightarrow> bool" where
  "rank_gt a b = (ace_high b < ace_high a)"

definition high_card_start :: high_card_game where
  "high_card_start =
     \<lparr>hc_deck = full_deck, game_state = new_high_card_game_state [''Alice'', ''Bob'']\<rparr>"

definition high_card_deck :: "card list" where
  "high_card_deck = stacked [Card Five Hearts, Card King Spades]"

definition high_card_after :: high_card_game where
  "high_card_after =
     high_card_start
       \<lparr>hc_deck := rest_of [Card Five Hearts, Card King Spades],
        game_state := update_state (game_state high_card_start)
                        (round_update (game_state high_card_start) ''Alice'')\<rparr>"

section \<open>Evaluating the sample rounds\<close>

declare dealers_loop.simps [simp del]

lemma reference_env_sel:
  "hand_value (reference_env d) = blackjack_value"
  "has_ace (reference_env d) = shows_ace"
  "should_hit (reference_env d) cs = (blackjack_value cs < 17)"
  "decide_action (reference_env d) p =
     (if blackjack_value (current_hand p) < 17 then ''hit'' else ''stand'')"
  "shuffled (reference_env d) = d"
  by (simp_all add: reference_env_def)

lemmas handler_defs =
  handle_def placing_bets_handle_def dealing_handle_def deal_def deal_pass_def deal_card_def
  offer_insurance_handle_def offer_insurance_def players_turn_handle_def dealers_turn_handle_def
  end_round_handle_def calculate_winner_def settle_player_def update_def check_blackjack_def
  pay_blackjack_def set_state_def place_bet_def payout_def buy_insurance_def add_card_def
  dealer_add_card_def stand_def is_done_def is_busted_def

lemmas sample_defs =
  play_round_def play_loop.simps player_turn.simps dealers_loop.simps handler_defs
  reference_env_sel blackjack_value_def shows_ace_def
  bob_at_table_def new_game_def new_player_def stacked_def Let_def

lemma natural_round_dealing:
  "dealing_handle (reference_env natural_deck) (placing_bets_handle bob_at_table)
   = Inr natural_dealt"
  by (simp add: sample_defs natural_deck_def natural_dealt_def)

lemma natural_round:
  "play_round (reference_env natural_deck) bob_at_table = Some (Inr natural_settled)"
  by (simp add: sample_defs natural_deck_def natural_settled_def natural_dealt_def)

lemma tie_round_dealing:
  "dealing_handle (reference_env tie_deck) (placing_bets_handle bob_at_table) = Inr tie_dealt"
  by (simp add: sample_defs tie_deck_def tie_dealt_def)

lemma tie_round:
  "play_round (reference_env tie_deck) bob_at_table = Some (Inr tie_settled)"
  by (simp add: sample_defs tie_deck_def tie_settled_def tie_dealt_def)

lemma insurance_round_dealing:
  "dealing_handle (reference_env insurance_deck) (placing_bets_handle bob_at_table)
   = Inr insurance_dealt"
  by (simp add: sample_defs insurance_deck_def insurance_dealt_def)

lemma insurance_round_offer:
  "offer_insurance_handle (reference_env insurance_deck) insurance_dealt = Inr insurance_offered"
  by (simp add: sample_defs insurance_deck_def insurance_dealt_def insurance_offered_def)

lemma insurance_round:
  "play_round (reference_env insurance_deck) bob_at_table = Some (Inr insurance_settled)"
  by (simp add: sample_defs insurance_deck_def insurance_settled_def insurance_offered_def
        insurance_dealt_def)

lemma natural_deck_length: "length natural_deck = 52"
  by (simp add: natural_deck_def stacked_def rest_of_def full_deck_def)

lemma drawing_round_dealer:
  "dealers_turn_handle (reference_env drawing_deck) drawing_stood = Inr drawing_drawn"
  by (simp add: sample_defs drawing_stood_def drawing_drawn_def)

section \<open>Settlement at the end of the round\<close>

lemma settle_player_cases:
  "settle_player E dv p =
     (if hand_value E (current_hand p) > 21 then p\<lparr>winner := Some ''dealer''\<rparr>
      else if dv > 21 \<or> hand_value E (current_hand p) > dv
      then p\<lparr>money := money p + bet p * 2, payouts := payouts p @ [bet p * 2],
             winner := Some ''player''\<rparr>
      else if hand_value E (current_hand p) < dv then p\<lparr>winner := Some ''dealer''\<rparr>
      else p\<lparr>money := money p + bet p, payouts := payouts p @ [bet p], winner := Some ''draw''\<rparr>)"
  by (simp add: settle_player_def payout_def Let_def)

lemma players_calculate_winner:
  "players (calculate_winner E g) =
     map (settle_player E (hand_value E (dealer_hand (dealer g)))) (players g)"
  by (simp add: calculate_winner_def set_state_def Let_def)

text \<open>
  Claim C2. Every player settled by \<^verbatim>\<open>calculate_winner\<close> against the dealer's
  final hand: a hand over 21 loses without a payout; otherwise, when the
  dealer is over 21 or the player's value is higher, the player wins and is
  paid twice the bet; otherwise a lower value loses without a payout; equal
  values are a draw and the bet is paid back once.
\<close>

theorem calculate_winner_outcome:
  assumes "i < length (players g)"
  shows "let p = players g ! i;
             p' = players (calculate_winner E g) ! i;
             pv = hand_value E (current_hand p);
             dv = hand_value E (dealer_hand (dealer g))
         in if pv > 21
            then winner p' = Some ''dealer'' \<and> payouts p' = payouts p \<and> money p' = money p
            else if dv > 21 \<or> pv > dv
            then winner p' = Some ''player'' \<and> payouts p' = payouts p @ [bet p * 2]
                 \<and> money p' = money p + bet p * 2
            else if pv < dv
            then winner p' = Some ''dealer'' \<and> payouts p' = payouts p \<and> money p' = money p
            else winner p' = Some ''draw'' \<and> payouts p' = payouts p @ [bet p * 1]
                 \<and> money p' = money p + bet p * 1"
  using assms by (simp add: players_calculate_winner settle_player_cases Let_def)

theorem calculate_winner_outcome_witness:
  "0 < length (players natural_dealt)
   \<and> hand_value (reference_env natural_deck) (current_hand (players natural_dealt ! 0)) = 21
   \<and> hand_value (reference_env natural_deck) (dealer_hand (dealer natural_dealt)) = 19
   \<and> winner (players (calculate_winner (reference_env natural_deck) natural_dealt) ! 0)
       = Some ''player''
   \<and> payouts (players (calculate_winner (reference_env natural_deck) natural_dealt) ! 0)
       = [15, 20]"
  using calculate_winner_outcome
          [where i = 0 and g = natural_dealt and E = "reference_env natural_deck"]
  by (simp add: natural_dealt_def bob_at_table_def new_game_def new_player_def set_state_def
        reference_env_sel blackjack_value_def Let_def)

lemma settle_player_flags:
  "settle_player E dv (p\<lparr>blackjack := b, winner := w\<rparr>) = (settle_player E dv p)\<lparr>blackjack := b\<rparr>"
  by (simp add: settle_player_cases)

text \<open>
  Claim C1, as amended. \<^verbatim>\<open>calculate_winner\<close> settles every player, whatever tag or
  blackjack flag the player brings from the dealing phase: the call leaves
  the player with one of the three outcome tags and makes at most one payout,
  twice the bet or the bet, and the tag and flag the player came with make no
  difference to either.
\<close>

theorem calculate_winner_settles_everyone:
  assumes "i < length (players g)"
  shows "let p = players g ! i;
             p' = players (calculate_winner E g) ! i
         in (winner p' = Some ''player'' \<or> winner p' = Some ''dealer'' \<or> winner p' = Some ''draw'')
            \<and> (payouts p' = payouts p \<or> payouts p' = payouts p @ [bet p * 2]
                 \<or> payouts p' = payouts p @ [bet p])
            \<and> players (calculate_winner E
                 (g\<lparr>players := (players g)[i := p\<lparr>blackjack := b, winner := w\<rparr>]\<rparr>)) ! i
               = p'\<lparr>blackjack := b\<rparr>"
  using assms
  by (simp add: players_calculate_winner settle_player_flags Let_def)
     (simp add: settle_player_cases)

theorem calculate_winner_settles_everyone_witness:
  "0 < length (players tie_dealt)
   \<and> winner (players tie_dealt ! 0) = Some ''player''
   \<and> winner (players (calculate_winner (reference_env tie_deck) tie_dealt) ! 0) = Some ''draw''
   \<and> payouts (players (calculate_winner (reference_env tie_deck) tie_dealt) ! 0)
       = payouts (players tie_dealt ! 0) @ [bet (players tie_dealt ! 0)]"
  using calculate_winner_settles_everyone
          [where i = 0 and g = tie_dealt and E = "reference_env tie_deck" and b = True
             and w = None]
  by (simp add: tie_dealt_def bob_at_table_def new_game_def new_player_def set_state_def
        players_calculate_winner settle_player_cases reference_env_sel blackjack_value_def
        Let_def)

text \<open>
  Claim C1 as stated fails. Bob is dealt a natural against the dealer's 19:
  the dealing phase tags him as the winner and pays 15 on his bet of 10, and
  the settlement at the end of the same round pays him 20 more.
\<close>

theorem blackjack_settled_again:
  "dealing_handle (reference_env natural_deck) (placing_bets_handle bob_at_table)
     = Inr natural_dealt
   \<and> map winner (players natural_dealt) = [Some ''player'']
   \<and> map blackjack (players natural_dealt) = [True]
   \<and> map payouts (players natural_dealt) = [[15]]
   \<and> map payouts (players (calculate_winner (reference_env natural_deck) natural_dealt))
       = [[15, 20]]
   \<and> play_round (reference_env natural_deck) bob_at_table = Some (Inr natural_settled)
   \<and> map payouts (players natural_settled) = [[15, 20]]"
  by (simp add: natural_round natural_round_dealing)
     (simp add: natural_dealt_def natural_settled_def bob_at_table_def new_player_def
        new_game_def handler_defs reference_env_sel blackjack_value_def Let_def)

section \<open>The statistics\<close>

lemma dealer_blackjack_loop_eq:
  "dealer_blackjack_loop ps s dw =
     (map (\<lambda>p. if blackjack p then p else p\<lparr>winner := Some ''dealer''\<rparr>) ps,
      s\<lparr>draws := draws s + int (length (filter blackjack ps))\<rparr>,
      dw \<and> \<not> list_ex blackjack ps)"
  by (induction ps arbitrary: s dw) auto

lemma players_check_blackjack:
  "players (check_blackjack E g) =
     (if hand_value E (dealer_hand (dealer g)) = 21
      then map (\<lambda>p. if blackjack p then p else p\<lparr>winner := Some ''dealer''\<rparr>)
             (map (pay_blackjack E) (players g))
      else map (pay_blackjack E) (players g))"
  by (simp add: check_blackjack_def dealer_blackjack_loop_eq Let_def)

lemma stats_check_blackjack:
  "stats (check_blackjack E g) =
     (if hand_value E (dealer_hand (dealer g)) = 21
      then (stats g)\<lparr>draws := draws (stats g)
              + int (length (filter blackjack (map (pay_blackjack E) (players g))))\<rparr>
      else stats g)"
  by (simp add: check_blackjack_def dealer_blackjack_loop_eq Let_def)

lemma check_blackjack_rest:
  "current_state (check_blackjack E g) = current_state g"
  "rules (check_blackjack E g) = rules g"
  "deck (check_blackjack E g) = deck g"
  "dealer_hand (dealer (check_blackjack E g)) = dealer_hand (dealer g)"
  by (simp_all add: check_blackjack_def dealer_blackjack_loop_eq Let_def)

lemma update_stats:
  "stats (update g) =
     \<lparr>games_played = games_played (stats g) + 1,
      player_wins = player_wins (stats g)
        + (if Some ''player'' \<in> set (map winner (players g)) then 1 else 0),
      dealer_wins = dealer_wins (stats g)
        + (if Some ''dealer'' \<in> set (map winner (players g)) then 1 else 0),
      draws = draws (stats g)
        + (if Some ''draw'' \<in> set (map winner (players g)) then 1 else 0)\<rparr>"
  by (auto simp add: update_def Let_def list_ex_iff image_iff)

lemma update_rest:
  "players (update g) = map (\<lambda>p. p\<lparr>winner := None\<rparr>) (players g)"
  "current_state (update g) = current_state g"
  "rules (update g) = rules g"
  "deck (update g) = deck g"
  "dealer (update g) = dealer g"
  by (simp_all add: update_def Let_def)

text \<open>
  Claim C9. One call of \<^verbatim>\<open>SimulationStats.update\<close> adds exactly 1 to
  \<^verbatim>\<open>games_played\<close>, adds 1 to each of the other three counters when some
  player carries the matching tag and nothing otherwise, however many players
  carry it, and leaves every player's tag at \<^verbatim>\<open>None\<close>.
\<close>

theorem update_counts_round_once:
  "games_played (stats (update g)) = games_played (stats g) + 1
   \<and> player_wins (stats (update g)) = player_wins (stats g)
        + (if Some ''player'' \<in> set (map winner (players g)) then 1 else 0)
   \<and> dealer_wins (stats (update g)) = dealer_wins (stats g)
        + (if Some ''dealer'' \<in> set (map winner (players g)) then 1 else 0)
   \<and> draws (stats (update g)) = draws (stats g)
        + (if Some ''draw'' \<in> set (map winner (players g)) then 1 else 0)
   \<and> map winner (players (update g)) = replicate (length (players g)) None"
  by (simp add: update_stats update_rest map_replicate_const comp_def)

theorem update_counts_round_once_witness:
  "map winner (players (calculate_winner (reference_env tie_deck) tie_dealt)) = [Some ''draw'']
   \<and> draws (stats (update (calculate_winner (reference_env tie_deck) tie_dealt)))
       = draws (stats tie_dealt) + 1
   \<and> player_wins (stats (update (calculate_winner (reference_env tie_deck) tie_dealt)))
       = player_wins (stats tie_dealt)
   \<and> games_played (stats (update (calculate_winner (reference_env tie_deck) tie_dealt)))
       = games_played (stats tie_dealt) + 1
   \<and> map winner (players (update (calculate_winner (reference_env tie_deck) tie_dealt)))
       = [None]"
  using update_counts_round_once [of "calculate_winner (reference_env tie_deck) tie_dealt"]
  by (simp add: tie_dealt_def bob_at_table_def new_game_def new_player_def set_state_def
        calculate_winner_def settle_player_cases reference_env_sel blackjack_value_def
        Let_def)

lemma deal_players_length:
  "deal_players d ps = Inr (d', ps') \<Longrightarrow> length ps' = length ps"
  by (induction ps arbitrary: d d' ps')
     (auto simp add: deal_card_def split: list.splits sum.splits prod.splits)

lemma deal_pass_frame:
  assumes "deal_pass g = Inr g'"
  shows "stats g' = stats g \<and> rules g' = rules g \<and> current_state g' = current_state g
         \<and> length (players g') = length (players g)"
  using assms
  by (auto simp add: deal_pass_def deal_card_def deal_players_length
           split: sum.splits prod.splits list.splits)

lemma deal_frame:
  assumes "deal g = Inr g'"
  shows "stats g' = stats g \<and> rules g' = rules g \<and> current_state g' = current_state g
         \<and> length (players g') = length (players g)"
proof -
  from assms obtain g1 where a: "deal_pass g = Inr g1" and b: "deal_pass g1 = Inr g'"
    by (auto simp add: deal_def split: sum.splits)
  from deal_pass_frame[OF a] deal_pass_frame[OF b] show ?thesis
    by simp
qed

lemma players_turn_length:
  "players_turn E d ps = Some (Inr (d', ps')) \<Longrightarrow> length ps' = length ps"
  by (induction ps arbitrary: d d' ps')
     (auto split: option.splits sum.splits prod.splits)

lemma filter_blackjack_dealer_loop:
  "filter blackjack (map (\<lambda>p. if blackjack p then p else p\<lparr>winner := Some ''dealer''\<rparr>) ps)
   = filter blackjack ps"
  by (induction ps) auto

lemma length_filter_blackjack_check:
  "length (filter blackjack (players (check_blackjack E g)))
   = length (filter blackjack (map (pay_blackjack E) (players g)))"
proof (cases "hand_value E (dealer_hand (dealer g)) = 21")
  case True
  then have "players (check_blackjack E g) =
      map (\<lambda>p. if blackjack p then p else p\<lparr>winner := Some ''dealer''\<rparr>)
        (map (pay_blackjack E) (players g))"
    by (simp add: players_check_blackjack)
  then show ?thesis
    by (simp only: filter_blackjack_dealer_loop)
next
  case False
  then show ?thesis
    by (simp add: players_check_blackjack)
qed

lemma dealing_handle_stats:
  assumes "dealing_handle E g = Inr g'"
  shows "games_played (stats g') = games_played (stats g)
         \<and> player_wins (stats g') = player_wins (stats g)
         \<and> dealer_wins (stats g') = dealer_wins (stats g)
         \<and> draws (stats g') = draws (stats g)
              + (if hand_value E (dealer_hand (dealer g')) = 21
                 then int (length (filter blackjack (players g'))) else 0)"
proof -
  from assms obtain g1 where d: "deal (g\<lparr>deck := shuffled E\<rparr>) = Inr g1"
    and g': "g' = set_state OfferInsuranceState (check_blackjack E g1)"
    by (auto simp add: dealing_handle_def split: sum.splits)
  from deal_frame[OF d] have s: "stats g1 = stats g"
    by simp
  show ?thesis
    by (simp add: g' set_state_def stats_check_blackjack check_blackjack_rest
          length_filter_blackjack_check s)
qed

lemma handle_stats_other:
  assumes "handle E g = Some (Inr g')"
    and "current_state g \<noteq> EndRoundState" and "current_state g \<noteq> DealingState"
  shows "stats g' = stats g"
  using assms
  by (cases "current_state g")
     (auto simp add: handle_def waiting_for_players_handle_def placing_bets_handle_def
        offer_insurance_handle_def players_turn_handle_def dealers_turn_handle_def
        set_state_def Let_def
        split: sum.splits option.splits prod.splits list.splits)

lemma end_round_handle_stats:
  "stats (end_round_handle E g) =
     \<lparr>games_played = games_played (stats g) + 1,
      player_wins = player_wins (stats g)
        + (if Some ''player'' \<in> set (map winner (players (calculate_winner E g))) then 1 else 0),
      dealer_wins = dealer_wins (stats g)
        + (if Some ''dealer'' \<in> set (map winner (players (calculate_winner E g))) then 1 else 0),
      draws = draws (stats g)
        + (if Some ''draw'' \<in> set (map winner (players (calculate_winner E g))) then 1 else 0)\<rparr>"
  by (simp add: end_round_handle_def update_stats)
     (simp add: calculate_winner_def set_state_def Let_def)

lemma handle_stats:
  assumes "handle E g = Some (Inr g')"
  shows "games_played (stats g) \<le> games_played (stats g')
         \<and> player_wins (stats g) \<le> player_wins (stats g')
         \<and> dealer_wins (stats g) \<le> dealer_wins (stats g')
         \<and> draws (stats g) \<le> draws (stats g')
         \<and> (if current_state g = EndRoundState
             then games_played (stats g') = games_played (stats g) + 1
                  \<and> player_wins (stats g') \<le> player_wins (stats g) + 1
                  \<and> dealer_wins (stats g') \<le> dealer_wins (stats g) + 1
                  \<and> draws (stats g') \<le> draws (stats g) + 1
             else games_played (stats g') = games_played (stats g)
                  \<and> player_wins (stats g') = player_wins (stats g)
                  \<and> dealer_wins (stats g') = dealer_wins (stats g)
                  \<and> draws (stats g') = draws (stats g)
                       + (if current_state g = DealingState
                             \<and> hand_value E (dealer_hand (dealer g')) = 21
                          then int (length (filter blackjack (players g'))) else 0))"
proof (cases "current_state g = EndRoundState")
  case True
  with assms have "g' = end_round_handle E g"
    by (simp add: handle_def)
  with True show ?thesis
    by (simp add: end_round_handle_stats)
next
  case notend: False
  show ?thesis
  proof (cases "current_state g = DealingState")
    case True
    with assms have "dealing_handle E g = Inr g'"
      by (simp add: handle_def)
    from dealing_handle_stats[OF this] True show ?thesis
      by simp
  next
    case False
    from handle_stats_other[OF assms notend False] notend False show ?thesis
      by simp
  qed
qed

lemma play_loop_stats:
  assumes "play_loop E g = Some r"
  shows "\<forall>g1. r = Inr g1 \<longrightarrow>
           games_played (stats g) \<le> games_played (stats g1)
           \<and> player_wins (stats g) \<le> player_wins (stats g1)
           \<and> dealer_wins (stats g) \<le> dealer_wins (stats g1)
           \<and> draws (stats g) \<le> draws (stats g1)"
proof (rule play_loop.raw_induct
        [where P = "\<lambda>E g r. \<forall>g1. r = Inr g1 \<longrightarrow>
                       games_played (stats g) \<le> games_played (stats g1)
                       \<and> player_wins (stats g) \<le> player_wins (stats g1)
                       \<and> dealer_wins (stats g) \<le> dealer_wins (stats g1)
                       \<and> draws (stats g) \<le> draws (stats g1)",
         OF _ assms],
       goal_cases)
  case (1 pl E g r)
  show ?case
  proof (cases "current_state g = EndRoundState")
    case True
    with 1 show ?thesis by auto
  next
    case False
    show ?thesis
    proof (intro allI impI)
      fix g1 assume r: "r = Inr g1"
      with False 1 obtain g2 where h: "handle E g = Some (Inr g2)"
        and rest: "pl E g2 = Some (Inr g1)"
        by (auto split: option.splits sum.splits)
      from 1 rest have "games_played (stats g2) \<le> games_played (stats g1)
           \<and> player_wins (stats g2) \<le> player_wins (stats g1)
           \<and> dealer_wins (stats g2) \<le> dealer_wins (stats g1)
           \<and> draws (stats g2) \<le> draws (stats g1)"
        by blast
      with handle_stats[OF h]
      show "games_played (stats g) \<le> games_played (stats g1)
           \<and> player_wins (stats g) \<le> player_wins (stats g1)
           \<and> dealer_wins (stats g) \<le> dealer_wins (stats g1)
           \<and> draws (stats g) \<le> draws (stats g1)"
        by linarith
    qed
  qed
qed

lemma play_round_stats:
  assumes "play_round E g = Some (Inr g')"
  shows "games_played (stats g) \<le> games_played (stats g')
         \<and> player_wins (stats g) \<le> player_wins (stats g')
         \<and> dealer_wins (stats g) \<le> dealer_wins (stats g')
         \<and> draws (stats g) \<le> draws (stats g')"
proof -
  from assms obtain g1 where l: "play_loop E g = Some (Inr g1)"
    and h: "handle E g1 = Some (Inr g')"
    by (auto simp add: play_round_def split: option.splits sum.splits)
  from play_loop_stats[OF l] handle_stats[OF h] show ?thesis
    by simp
qed

text \<open>
  Claim C5, as amended. No handler, and no other operation of the session
  (\<^verbatim>\<open>play_round\<close>, \<^verbatim>\<open>add_player\<close>, \<^verbatim>\<open>set_state\<close>, \<^verbatim>\<open>reset\<close>), ever decrements
  one of the four counters. The handler of \<^verbatim>\<open>EndRoundState\<close> adds exactly 1 to
  \<^verbatim>\<open>games_played\<close> and at most 1 to each of the others. Every other handler
  leaves \<^verbatim>\<open>games_played\<close>, \<^verbatim>\<open>player_wins\<close> and \<^verbatim>\<open>dealer_wins\<close> alone; \<^verbatim>\<open>draws\<close>
  is changed by one of them, the dealing handler, whose blackjack check adds 1
  for every player holding a blackjack when the dealer's hand is worth 21.
\<close>

theorem counters_never_decrease:
  "(handle E g = Some (Inr g') \<or> play_round E g = Some (Inr g') \<longrightarrow>
      games_played (stats g) \<le> games_played (stats g')
      \<and> player_wins (stats g) \<le> player_wins (stats g')
      \<and> dealer_wins (stats g) \<le> dealer_wins (stats g')
      \<and> draws (stats g) \<le> draws (stats g'))
   \<and> (handle E g = Some (Inr g') \<longrightarrow>
        (if current_state g = EndRoundState
         then games_played (stats g') = games_played (stats g) + 1
              \<and> player_wins (stats g') \<le> player_wins (stats g) + 1
              \<and> dealer_wins (stats g') \<le> dealer_wins (stats g) + 1
              \<and> draws (stats g') \<le> draws (stats g) + 1
         else games_played (stats g') = games_played (stats g)
              \<and> player_wins (stats g') = player_wins (stats g)
              \<and> dealer_wins (stats g') = dealer_wins (stats g)
              \<and> draws (stats g') = draws (stats g)
                   + (if current_state g = DealingState
                         \<and> hand_value E (dealer_hand (dealer g')) = 21
                      then int (length (filter blackjack (players g'))) else 0)))
   \<and> (add_player g pl = Inr (msg, g2) \<longrightarrow> stats g2 = stats g)
   \<and> stats (set_state s g) = stats g
   \<and> stats (reset fresh g) = stats g"
proof -
  have a: "handle E g = Some (Inr g') \<or> play_round E g = Some (Inr g') \<longrightarrow>
      games_played (stats g) \<le> games_played (stats g')
      \<and> player_wins (stats g) \<le> player_wins (stats g')
      \<and> dealer_wins (stats g) \<le> dealer_wins (stats g')
      \<and> draws (stats g) \<le> draws (stats g')"
    using handle_stats[of E g g'] play_round_stats[of E g g'] by blast
  have b: "handle E g = Some (Inr g') \<longrightarrow>
        (if current_state g = EndRoundState
         then games_played (stats g') = games_played (stats g) + 1
              \<and> player_wins (stats g') \<le> player_wins (stats g) + 1
              \<and> dealer_wins (stats g') \<le> dealer_wins (stats g) + 1
              \<and> draws (stats g') \<le> draws (stats g) + 1
         else games_played (stats g') = games_played (stats g)
              \<and> player_wins (stats g') = player_wins (stats g)
              \<and> dealer_wins (stats g') = dealer_wins (stats g)
              \<and> draws (stats g') = draws (stats g)
                   + (if current_state g = DealingState
                         \<and> hand_value E (dealer_hand (dealer g')) = 21
                      then int (length (filter blackjack (players g'))) else 0))"
    using handle_stats[of E g g'] by blast
  have c: "add_player g pl = Inr (msg, g2) \<longrightarrow> stats g2 = stats g"
    by (auto simp add: add_player_def waiting_add_player_def
          split: option.splits if_splits)
  have d: "stats (set_state s g) = stats g \<and> stats (reset fresh g) = stats g"
    by (simp add: set_state_def reset_def)
  from a b c d show ?thesis
    by (intro conjI) blast+
qed

theorem counters_never_decrease_witness:
  "handle (reference_env tie_deck) (placing_bets_handle bob_at_table) = Some (Inr tie_dealt)
   \<and> current_state (placing_bets_handle bob_at_table) = DealingState
   \<and> hand_value (reference_env tie_deck) (dealer_hand (dealer tie_dealt)) = 21
   \<and> draws (stats (placing_bets_handle bob_at_table)) \<le> draws (stats tie_dealt)
   \<and> draws (stats tie_dealt) = draws (stats (placing_bets_handle bob_at_table)) + 1
   \<and> games_played (stats tie_dealt) = games_played (stats (placing_bets_handle bob_at_table))"
proof -
  have st: "current_state (placing_bets_handle bob_at_table) = DealingState"
    by (simp add: placing_bets_handle_def set_state_def)
  have h: "handle (reference_env tie_deck) (placing_bets_handle bob_at_table)
           = Some (Inr tie_dealt)"
    by (simp add: handle_def st tie_round_dealing)
  from counters_never_decrease
         [of "reference_env tie_deck" "placing_bets_handle bob_at_table" tie_dealt]
       h st
  show ?thesis
    by (simp add: tie_dealt_def reference_env_sel blackjack_value_def)
qed

text \<open>
  Claim C5 as stated fails. In the round in which Bob and the dealer both hold
  a natural, \<^verbatim>\<open>draws\<close> is 1 when the dealing handler returns, before the round
  has reached \<^verbatim>\<open>EndRoundState\<close>, and 2 after the one round, of which
  \<^verbatim>\<open>games_played\<close> counts 1.
\<close>

theorem draws_counted_while_dealing:
  "draws (stats bob_at_table) = 0
   \<and> dealing_handle (reference_env tie_deck) (placing_bets_handle bob_at_table) = Inr tie_dealt
   \<and> current_state tie_dealt = OfferInsuranceState
   \<and> draws (stats tie_dealt) = 1
   \<and> play_round (reference_env tie_deck) bob_at_table = Some (Inr tie_settled)
   \<and> games_played (stats tie_settled) = 1
   \<and> draws (stats tie_settled) = 2"
  by (simp add: tie_round tie_round_dealing)
     (simp add: tie_dealt_def tie_settled_def bob_at_table_def new_game_def set_state_def)

section \<open>The dealer's turn\<close>

lemma deal_card_Inr: "deal_card d = Inr (c, d') \<longleftrightarrow> d = c # d'"
  by (simp add: deal_card_def split: list.splits)

lemma deal_card_Inl: "deal_card d = Inl e \<longleftrightarrow> d = [] \<and> e = DeckExhausted"
  by (auto simp add: deal_card_def split: list.splits)

lemma dealers_loop_returns:
  assumes "dealers_loop E d dl = Inr (d', dl')"
  shows "\<not> should_hit E (dealer_hand dl')
         \<and> dealer_winner dl' = dealer_winner dl
         \<and> (\<exists>drawn. d = drawn @ d' \<and> dealer_hand dl' = dealer_hand dl @ drawn
               \<and> (\<forall>k<length drawn. should_hit E (dealer_hand dl @ take k drawn)))"
  using assms
proof (induction E d dl rule: dealers_loop.induct)
  case (1 E d dl)
  show ?case
  proof (cases "should_hit E (dealer_hand dl)")
    case False
    with "1.prems" show ?thesis
      by (simp add: dealers_loop.simps)
  next
    case True
    with "1.prems" obtain c d1 where d: "d = c # d1"
      and run: "dealers_loop E d1 (dealer_add_card c dl) = Inr (d', dl')"
      by (auto simp add: dealers_loop.simps[of E d dl] deal_card_def split: list.splits)
    have dc: "deal_card d = Inr (c, d1)"
      by (simp add: d deal_card_def)
    from "1.IH"[OF True dc refl run]
    obtain drawn where stop: "\<not> should_hit E (dealer_hand dl')"
      and w: "dealer_winner dl' = dealer_winner dl"
      and d1: "d1 = drawn @ d'"
      and h: "dealer_hand dl' = dealer_hand dl @ c # drawn"
      and hits: "\<forall>k<length drawn. should_hit E (dealer_hand dl @ c # take k drawn)"
      by (auto simp add: dealer_add_card_def)
    have "\<forall>k<length (c # drawn). should_hit E (dealer_hand dl @ take k (c # drawn))"
    proof (intro allI impI)
      fix k assume "k < length (c # drawn)"
      then show "should_hit E (dealer_hand dl @ take k (c # drawn))"
        using True hits by (cases k) auto
    qed
    with stop w d d1 h show ?thesis
      by (intro conjI exI[of _ "c # drawn"]) simp_all
  qed
qed

lemma dealers_loop_fails:
  assumes "dealers_loop E d dl = Inl e"
  shows "e = DeckExhausted \<and> (\<forall>k\<le>length d. should_hit E (dealer_hand dl @ take k d))"
  using assms
proof (induction E d dl rule: dealers_loop.induct)
  case (1 E d dl)
  from "1.prems" have hit: "should_hit E (dealer_hand dl)"
    by (simp add: dealers_loop.simps[of E d dl] split: if_splits)
  with "1.prems" have body:
    "(case deal_card d of
        Inl e \<Rightarrow> Inl e
      | Inr (c, d') \<Rightarrow> dealers_loop E d' (dealer_add_card c dl)) = Inl e"
    by (simp add: dealers_loop.simps[of E d dl])
  show ?case
  proof (cases d)
    case Nil
    with body hit show ?thesis
      by (simp add: deal_card_def)
  next
    case (Cons c d1)
    then have dc: "deal_card d = Inr (c, d1)"
      by (simp add: deal_card_def)
    with body have run: "dealers_loop E d1 (dealer_add_card c dl) = Inl e"
      by simp
    from "1.IH"[OF hit dc refl run]
    have e: "e = DeckExhausted"
      and hits: "\<forall>k\<le>length d1. should_hit E (dealer_hand dl @ c # take k d1)"
      by (auto simp add: dealer_add_card_def)
    have "\<forall>k\<le>length d. should_hit E (dealer_hand dl @ take k d)"
    proof (intro allI impI)
      fix k assume "k \<le> length d"
      then show "should_hit E (dealer_hand dl @ take k d)"
        using hit hits Cons by (cases k) auto
    qed
    with e show ?thesis by simp
  qed
qed

text \<open>
  Claim C6. Let the dealer's policy answer yes exactly when the value of the
  hand is below 17. When the dealer's turn returns, the final hand is worth 17
  or more, and every card the dealer drew was drawn on a hand worth less than
  17: the hand before the \<open>k\<close>-th draw is the first hand followed by the first
  \<open>k\<close> drawn cards. The same holds for the draws of a turn that ends on an
  exhausted deck. On a hand worth 17 or more the turn draws nothing.
\<close>

theorem dealer_draws_below_17:
  assumes policy: "\<forall>h. should_hit E h = (hand_value E h < 17)"
  shows "(dealers_turn_handle E g = Inr g' \<longrightarrow>
            17 \<le> hand_value E (dealer_hand (dealer g'))
            \<and> current_state g' = EndRoundState
            \<and> (\<exists>drawn. deck g = drawn @ deck g'
                  \<and> dealer_hand (dealer g') = dealer_hand (dealer g) @ drawn
                  \<and> (\<forall>k<length drawn.
                        hand_value E (dealer_hand (dealer g) @ take k drawn) < 17)))
         \<and> (dealers_turn_handle E g = Inl e \<longrightarrow>
              e = DeckExhausted
              \<and> (\<forall>k\<le>length (deck g).
                    hand_value E (dealer_hand (dealer g) @ take k (deck g)) < 17))
         \<and> (17 \<le> hand_value E (dealer_hand (dealer g)) \<longrightarrow>
              dealers_turn_handle E g = Inr (set_state EndRoundState g))"
proof (intro conjI impI)
  assume run: "dealers_turn_handle E g = Inr g'"
  then obtain d' dl' where loop: "dealers_loop E (deck g) (dealer g) = Inr (d', dl')"
    and g': "g' = set_state EndRoundState (g\<lparr>deck := d', dealer := dl'\<rparr>)"
    by (auto simp add: dealers_turn_handle_def split: sum.splits)
  from dealers_loop_returns[OF loop] policy g'
  show "17 \<le> hand_value E (dealer_hand (dealer g'))"
    and "current_state g' = EndRoundState"
    and "\<exists>drawn. deck g = drawn @ deck g'
           \<and> dealer_hand (dealer g') = dealer_hand (dealer g) @ drawn
           \<and> (\<forall>k<length drawn. hand_value E (dealer_hand (dealer g) @ take k drawn) < 17)"
    by (auto simp add: set_state_def)
next
  assume "dealers_turn_handle E g = Inl e"
  then have loop: "dealers_loop E (deck g) (dealer g) = Inl e"
    by (auto simp add: dealers_turn_handle_def split: sum.splits)
  from dealers_loop_fails[OF loop] policy
  show "e = DeckExhausted"
    and "\<forall>k\<le>length (deck g). hand_value E (dealer_hand (dealer g) @ take k (deck g)) < 17"
    by auto
next
  assume "17 \<le> hand_value E (dealer_hand (dealer g))"
  with policy have "\<not> should_hit E (dealer_hand (dealer g))"
    by simp
  then show "dealers_turn_handle E g = Inr (set_state EndRoundState g)"
    by (simp add: dealers_turn_handle_def dealers_loop.simps[of E "deck g" "dealer g"])
qed

theorem dealer_draws_below_17_witness:
  "(\<forall>h. should_hit (reference_env drawing_deck) h
          = (hand_value (reference_env drawing_deck) h < 17))
   \<and> dealers_turn_handle (reference_env drawing_deck) drawing_stood = Inr drawing_drawn
   \<and> hand_value (reference_env drawing_deck) (dealer_hand (dealer drawing_stood)) = 16
   \<and> 17 \<le> hand_value (reference_env drawing_deck) (dealer_hand (dealer drawing_drawn))
   \<and> current_state drawing_drawn = EndRoundState
   \<and> dealers_turn_handle (reference_env drawing_deck) drawing_drawn
       = Inr (set_state EndRoundState drawing_drawn)
   \<and> dealers_turn_handle (reference_env drawing_deck) (drawing_stood\<lparr>deck := []\<rparr>)
       = Inl DeckExhausted"
proof -
  have policy: "\<forall>h. should_hit (reference_env drawing_deck) h
                  = (hand_value (reference_env drawing_deck) h < 17)"
    by (simp add: reference_env_sel)
  have v: "hand_value (reference_env drawing_deck) (dealer_hand (dealer drawing_stood)) = 16"
    by (simp add: drawing_stood_def reference_env_sel blackjack_value_def)
  have e: "dealers_turn_handle (reference_env drawing_deck) (drawing_stood\<lparr>deck := []\<rparr>)
           = Inl DeckExhausted"
    by (simp add: sample_defs drawing_stood_def)
  from dealer_draws_below_17 [OF policy, of drawing_stood drawing_drawn DeckExhausted]
       dealer_draws_below_17 [OF policy, of drawing_drawn drawing_drawn DeckExhausted]
       dealer_draws_below_17
         [OF policy, of "drawing_stood\<lparr>deck := []\<rparr>" drawing_drawn DeckExhausted]
    drawing_round_dealer policy v e
  show ?thesis
    by simp
qed

section \<open>The insurance offer\<close>

lemma player_turn_keeps_payouts:
  assumes "player_turn E d p = Some r"
  shows "\<forall>d' p'. r = Inr (d', p') \<longrightarrow>
           payouts p' = payouts p \<and> money p' = money p \<and> insurance p' = insurance p"
proof (rule player_turn.raw_induct
        [where P = "\<lambda>E d p r. \<forall>d' p'. r = Inr (d', p') \<longrightarrow>
                       payouts p' = payouts p \<and> money p' = money p
                       \<and> insurance p' = insurance p",
         OF _ assms],
       goal_cases)
  case (1 pt E d p r)
  show ?case
  proof (intro allI impI)
    fix d' p' assume r: "r = Inr (d', p')"
    consider (finished) "is_done p"
      | (hit) "\<not> is_done p" "decide_action E p = ''hit''"
      | (stand) "\<not> is_done p" "decide_action E p = ''stand''"
      | (other) "\<not> is_done p" "decide_action E p \<noteq> ''hit''" "decide_action E p \<noteq> ''stand''"
      by blast
    then show "payouts p' = payouts p \<and> money p' = money p \<and> insurance p' = insurance p"
    proof cases
      case finished
      with 1 r show ?thesis by auto
    next
      case stand
      with 1 r show ?thesis by (auto simp add: stand_def)
    next
      case other
      with 1 r show ?thesis by auto
    next
      case hit
      show ?thesis
      proof (cases d)
        case Nil
        with 1 r hit show ?thesis by (auto simp add: deal_card_def)
      next
        case (Cons c cs)
        have "payouts (add_card c p) = payouts p \<and> money (add_card c p) = money p
              \<and> insurance (add_card c p) = insurance p"
          by (simp add: add_card_def)
        with 1 r hit Cons show ?thesis
          by (auto simp add: deal_card_def stand_def split: if_splits)
      qed
    qed
  qed
qed

lemma players_turn_keeps_payouts:
  "players_turn E d ps = Some (Inr (d', ps')) \<Longrightarrow>
   map payouts ps' = map payouts ps \<and> map insurance ps' = map insurance ps"
proof (induction ps arbitrary: d d' ps')
  case Nil
  then show ?case by simp
next
  case (Cons p ps)
  from Cons.prems obtain d1 p1 ps1 where
    a: "player_turn E d p = Some (Inr (d1, p1))"
    and b: "players_turn E d1 ps = Some (Inr (d', ps1))"
    and c: "ps' = p1 # ps1"
    by (auto split: option.splits sum.splits prod.splits)
  from player_turn_keeps_payouts[OF a] Cons.IH[OF b] c show ?case
    by simp
qed

text \<open>
  Claim C3, as amended. When the dealer has an ace, every player buys
  insurance for 10 at the insurance offer, before the players' and the
  dealer's turns; otherwise the offer changes no player. The offer makes no
  payout, whether or not the dealer's hand is a natural, and neither does the
  players' turn or the dealer's turn that follow: the stake is taken and
  nothing is paid on it.
\<close>

theorem offer_insurance_takes_stake:
  assumes "offer_insurance_handle E g = Inr g'" and "i < length (players g)"
  shows "current_state g' = PlayersTurnState
         \<and> length (players g') = length (players g)
         \<and> dealer g' = dealer g \<and> stats g' = stats g \<and> deck g' = deck g
         \<and> (let p = players g ! i; p' = players g' ! i
             in payouts p' = payouts p
                \<and> (if has_ace E (dealer_hand (dealer g))
                    then p' = p\<lparr>insurance := 10, money := money p - 10\<rparr>
                    else p' = p))
         \<and> (handle E g' = Some (Inr g2) \<longrightarrow>
               map payouts (players g2) = map payouts (players g')
               \<and> map insurance (players g2) = map insurance (players g')
               \<and> (dealers_turn_handle E g2 = Inr g3 \<longrightarrow> players g3 = players g2))"
proof -
  from assms(1) have g': "g' = set_state PlayersTurnState
                              (g\<lparr>players := map (offer_insurance E g) (players g)\<rparr>)"
    by (auto simp add: offer_insurance_handle_def Let_def split: list.splits)
  have a: "current_state g' = PlayersTurnState
         \<and> length (players g') = length (players g)
         \<and> dealer g' = dealer g \<and> stats g' = stats g \<and> deck g' = deck g"
    by (simp add: g' set_state_def)
  have b: "let p = players g ! i; p' = players g' ! i
             in payouts p' = payouts p
                \<and> (if has_ace E (dealer_hand (dealer g))
                    then p' = p\<lparr>insurance := 10, money := money p - 10\<rparr>
                    else p' = p)"
    using assms(2)
    by (simp add: g' set_state_def offer_insurance_def buy_insurance_def Let_def)
  have c: "handle E g' = Some (Inr g2) \<longrightarrow>
               map payouts (players g2) = map payouts (players g')
               \<and> map insurance (players g2) = map insurance (players g')
               \<and> (dealers_turn_handle E g2 = Inr g3 \<longrightarrow> players g3 = players g2)"
  proof
    assume "handle E g' = Some (Inr g2)"
    with a obtain d' ps' where pt: "players_turn E (deck g') (players g') = Some (Inr (d', ps'))"
      and g2: "g2 = set_state DealersTurnState (g'\<lparr>deck := d', players := ps'\<rparr>)"
      by (auto simp add: handle_def players_turn_handle_def
            split: option.splits sum.splits prod.splits)
    have "dealers_turn_handle E g2 = Inr g3 \<longrightarrow> players g3 = players g2"
      by (auto simp add: dealers_turn_handle_def set_state_def split: sum.splits prod.splits)
    with players_turn_keeps_payouts[OF pt] g2
    show "map payouts (players g2) = map payouts (players g')
          \<and> map insurance (players g2) = map insurance (players g')
          \<and> (dealers_turn_handle E g2 = Inr g3 \<longrightarrow> players g3 = players g2)"
      by (simp add: set_state_def)
  qed
  from a b c show ?thesis
    by (intro conjI) blast+
qed

theorem offer_insurance_takes_stake_witness:
  "offer_insurance_handle (reference_env insurance_deck) insurance_dealt = Inr insurance_offered
   \<and> 0 < length (players insurance_dealt)
   \<and> has_ace (reference_env insurance_deck) (dealer_hand (dealer insurance_dealt))
   \<and> current_state insurance_offered = PlayersTurnState
   \<and> payouts (players insurance_offered ! 0) = payouts (players insurance_dealt ! 0)
   \<and> insurance (players insurance_offered ! 0) = 10
   \<and> money (players insurance_offered ! 0) = money (players insurance_dealt ! 0) - 10"
proof -
  have n: "0 < length (players insurance_dealt)"
    by (simp add: insurance_dealt_def)
  have ace: "has_ace (reference_env insurance_deck) (dealer_hand (dealer insurance_dealt))"
    by (simp add: insurance_dealt_def reference_env_sel shows_ace_def)
  from offer_insurance_takes_stake [OF insurance_round_offer n] ace insurance_round_offer n
  show ?thesis
    by (simp add: Let_def)
qed

text \<open>
  Claim C3 as stated fails. Bob holds 19 and the dealer is dealt the ace and
  the king of hearts, a natural. Bob buys insurance for 10 at the offer and is
  paid nothing there; when the round is over he has still been paid nothing,
  and his bankroll of 1000 is down by the bet and the stake.
\<close>

theorem insurance_never_paid:
  "dealing_handle (reference_env insurance_deck) (placing_bets_handle bob_at_table)
     = Inr insurance_dealt
   \<and> dealer_hand (dealer insurance_dealt) = [Card Ace Hearts, Card King Hearts]
   \<and> hand_value (reference_env insurance_deck) (dealer_hand (dealer insurance_dealt)) = 21
   \<and> map money (players insurance_dealt) = [990]
   \<and> offer_insurance_handle (reference_env insurance_deck) insurance_dealt
       = Inr insurance_offered
   \<and> map insurance (players insurance_offered) = [10]
   \<and> map payouts (players insurance_offered) = [[]]
   \<and> map money (players insurance_offered) = [980]
   \<and> play_round (reference_env insurance_deck) bob_at_table = Some (Inr insurance_settled)
   \<and> map payouts (players insurance_settled) = [[]]
   \<and> map money (players insurance_settled) = [980]"
  by (simp add: insurance_round insurance_round_dealing insurance_round_offer)
     (simp add: insurance_dealt_def insurance_offered_def insurance_settled_def
        bob_at_table_def new_player_def new_game_def set_state_def reference_env_sel
        blackjack_value_def)

section \<open>The blackjack check against a dealer's natural\<close>

text \<open>
  Claim C4 fails on the code. Bob and the dealer are both dealt an ace and a
  king. When the dealing handler returns, Bob holds a blackjack, the dealer's
  hand is worth 21, and Bob's tag is still \<^verbatim>\<open>"player"\<close>, not \<^verbatim>\<open>"draw"\<close>: the
  branch for a player with a blackjack counts a draw in the statistics and
  leaves the tag alone.
\<close>

theorem tie_keeps_player_tag:
  "dealing_handle (reference_env tie_deck) (placing_bets_handle bob_at_table) = Inr tie_dealt
   \<and> hand_value (reference_env tie_deck) (dealer_hand (dealer tie_dealt)) = 21
   \<and> map current_hand (players tie_dealt) = [[Card Ace Spades, Card King Spades]]
   \<and> map blackjack (players tie_dealt) = [True]
   \<and> map winner (players tie_dealt) = [Some ''player'']
   \<and> draws (stats tie_dealt) = 1"
  by (simp add: tie_round_dealing)
     (simp add: tie_dealt_def bob_at_table_def new_player_def new_game_def set_state_def
        reference_env_sel blackjack_value_def)

section \<open>The cycle of the round states\<close>

lemma play_loop_ends:
  "play_loop E g = Some r \<Longrightarrow> \<forall>g1. r = Inr g1 \<longrightarrow> current_state g1 = EndRoundState"
  by (rule play_loop.raw_induct
        [where P = "\<lambda>E g r. \<forall>g1. r = Inr g1 \<longrightarrow> current_state g1 = EndRoundState"])
     (auto split: if_splits option.splits sum.splits)

lemma handle_successor:
  assumes "handle E g = Some (Inr g')"
  shows "(current_state g = WaitingForPlayersState \<longrightarrow> g' = g)
         \<and> (current_state g = PlacingBetsState \<longrightarrow> current_state g' = DealingState)
         \<and> (current_state g = DealingState \<longrightarrow> current_state g' = OfferInsuranceState)
         \<and> (current_state g = OfferInsuranceState \<longrightarrow> current_state g' = PlayersTurnState)
         \<and> (current_state g = PlayersTurnState \<longrightarrow> current_state g' = DealersTurnState)
         \<and> (current_state g = DealersTurnState \<longrightarrow> current_state g' = EndRoundState)
         \<and> (current_state g = EndRoundState \<longrightarrow> current_state g' = PlacingBetsState)"
  using assms
  by (cases "current_state g")
     (auto simp add: handle_def waiting_for_players_handle_def placing_bets_handle_def
        dealing_handle_def offer_insurance_handle_def players_turn_handle_def
        dealers_turn_handle_def end_round_handle_def calculate_winner_def update_rest
        check_blackjack_rest set_state_def Let_def
        split: sum.splits option.splits prod.splits list.splits)

lemma deal_players_enough:
  "length ps \<le> length d \<Longrightarrow>
   \<exists>ps'. deal_players d ps = Inr (drop (length ps) d, ps') \<and> length ps' = length ps"
proof (induction ps arbitrary: d)
  case Nil
  then show ?case by simp
next
  case (Cons p ps)
  then obtain c d1 where d: "d = c # d1"
    by (cases d) auto
  with Cons.prems have "length ps \<le> length d1"
    by simp
  from Cons.IH[OF this] obtain ps' where
    "deal_players d1 ps = Inr (drop (length ps) d1, ps')" "length ps' = length ps"
    by blast
  with d show ?case
    by (simp add: deal_card_def)
qed

lemma deal_pass_enough:
  assumes "length (players g) + 1 \<le> length (deck g)"
  shows "\<exists>g'. deal_pass g = Inr g' \<and> deck g' = drop (length (players g) + 1) (deck g)
              \<and> length (players g') = length (players g)"
proof -
  from assms have "length (players g) \<le> length (deck g)"
    by simp
  from deal_players_enough[OF this] obtain ps' where
    a: "deal_players (deck g) (players g) = Inr (drop (length (players g)) (deck g), ps')"
    and b: "length ps' = length (players g)"
    by blast
  from assms obtain c d2 where c: "drop (length (players g)) (deck g) = c # d2"
    by (cases "drop (length (players g)) (deck g)") auto
  have "drop (length (players g) + 1) (deck g) = drop 1 (drop (length (players g)) (deck g))"
    by (simp add: add.commute)
  with c have "d2 = drop (length (players g) + 1) (deck g)"
    by simp
  with a b c show ?thesis
    by (simp add: deal_pass_def deal_card_def)
qed

lemma dealing_handle_enough:
  assumes "2 * (length (players g) + 1) \<le> length (shuffled E)"
  shows "\<exists>g'. dealing_handle E g = Inr g'"
proof -
  let ?g0 = "g\<lparr>deck := shuffled E\<rparr>"
  from assms have "length (players ?g0) + 1 \<le> length (deck ?g0)"
    by simp
  from deal_pass_enough[OF this] obtain g1 where
    a: "deal_pass ?g0 = Inr g1" and d1: "deck g1 = drop (length (players g) + 1) (shuffled E)"
    and l1: "length (players g1) = length (players g)"
    by auto
  from assms d1 l1 have "length (players g1) + 1 \<le> length (deck g1)"
    by simp
  from deal_pass_enough[OF this] obtain g2 where "deal_pass g1 = Inr g2"
    by blast
  with a show ?thesis
    by (simp add: dealing_handle_def deal_def)
qed

lemma player_turn_returns:
  assumes "\<forall>q. decide_action E q = ''hit'' \<or> decide_action E q = ''stand''"
  shows "player_turn E d p \<noteq> None"
proof (induction d arbitrary: p)
  case Nil
  from assms have "decide_action E p = ''hit'' \<or> decide_action E p = ''stand''"
    by blast
  then show ?case
    by (subst player_turn.simps) (auto simp add: deal_card_def)
next
  case (Cons c cs)
  from assms have "decide_action E p = ''hit'' \<or> decide_action E p = ''stand''"
    by blast
  with Cons.IH[of "add_card c p"] show ?case
    by (subst player_turn.simps) (auto simp add: deal_card_def)
qed

lemma players_turn_returns:
  assumes "\<forall>q. decide_action E q = ''hit'' \<or> decide_action E q = ''stand''"
  shows "players_turn E d ps \<noteq> None"
proof (induction ps arbitrary: d)
  case Nil
  show ?case by simp
next
  case (Cons p ps)
  from player_turn_returns[OF assms, of d p] obtain r where r: "player_turn E d p = Some r"
    by blast
  show ?case
  proof (cases r)
    case (Inl e)
    with r show ?thesis by simp
  next
    case (Inr x)
    obtain d' p' where x: "x = (d', p')"
      by (cases x)
    from Cons.IH[of d'] obtain r2 where "players_turn E d' ps = Some r2"
      by blast
    with r Inr x show ?thesis
      by (cases r2) auto
  qed
qed

text \<open>
  Claim C7. The game holds one round state. A handler that returns leaves the
  game in the designated successor of the state it ran in: placing bets,
  dealing, insurance offer, players' turn, dealer's turn, end of round, and
  from there placing bets again; \<^verbatim>\<open>play_round\<close> returns in the state of placing
  bets. The handlers of placing bets and of the end of the round always
  return; the dealing handler returns when the shuffled deck holds two cards
  for every player and the dealer; the insurance offer returns when the dealer
  holds a card; the players' turn ends (with a result, or on an exhausted
  deck) when every action is a hit or a stand; the dealer's turn always ends.
\<close>

theorem handlers_follow_cycle:
  "(handle E g = Some (Inr g') \<longrightarrow>
      (current_state g = PlacingBetsState \<longrightarrow> current_state g' = DealingState)
      \<and> (current_state g = DealingState \<longrightarrow> current_state g' = OfferInsuranceState)
      \<and> (current_state g = OfferInsuranceState \<longrightarrow> current_state g' = PlayersTurnState)
      \<and> (current_state g = PlayersTurnState \<longrightarrow> current_state g' = DealersTurnState)
      \<and> (current_state g = DealersTurnState \<longrightarrow> current_state g' = EndRoundState)
      \<and> (current_state g = EndRoundState \<longrightarrow> current_state g' = PlacingBetsState))
   \<and> (current_state g = PlacingBetsState \<or> current_state g = EndRoundState \<longrightarrow>
        (\<exists>g2. handle E g = Some (Inr g2)))
   \<and> (current_state g = DealingState \<and> 2 * (length (players g) + 1) \<le> length (shuffled E) \<longrightarrow>
        (\<exists>g2. handle E g = Some (Inr g2)))
   \<and> (current_state g = OfferInsuranceState \<and> dealer_hand (dealer g) \<noteq> [] \<longrightarrow>
        (\<exists>g2. handle E g = Some (Inr g2)))
   \<and> (current_state g = PlayersTurnState
        \<and> (\<forall>q. decide_action E q = ''hit'' \<or> decide_action E q = ''stand'') \<longrightarrow>
        (\<exists>r. handle E g = Some r))
   \<and> (current_state g = DealersTurnState \<longrightarrow> (\<exists>r. handle E g = Some r))
   \<and> (play_round E g = Some (Inr g') \<longrightarrow> current_state g' = PlacingBetsState)"
proof -
  have succ: "handle E g = Some (Inr g') \<longrightarrow>
      (current_state g = PlacingBetsState \<longrightarrow> current_state g' = DealingState)
      \<and> (current_state g = DealingState \<longrightarrow> current_state g' = OfferInsuranceState)
      \<and> (current_state g = OfferInsuranceState \<longrightarrow> current_state g' = PlayersTurnState)
      \<and> (current_state g = PlayersTurnState \<longrightarrow> current_state g' = DealersTurnState)
      \<and> (current_state g = DealersTurnState \<longrightarrow> current_state g' = EndRoundState)
      \<and> (current_state g = EndRoundState \<longrightarrow> current_state g' = PlacingBetsState)"
    using handle_successor[of E g g'] by blast
  have total: "current_state g = PlacingBetsState \<or> current_state g = EndRoundState \<longrightarrow>
        (\<exists>g2. handle E g = Some (Inr g2))"
    by (auto simp add: handle_def)
  have dealing: "current_state g = DealingState
        \<and> 2 * (length (players g) + 1) \<le> length (shuffled E) \<longrightarrow>
        (\<exists>g2. handle E g = Some (Inr g2))"
    using dealing_handle_enough[of g E] by (auto simp add: handle_def)
  have offer: "current_state g = OfferInsuranceState \<and> dealer_hand (dealer g) \<noteq> [] \<longrightarrow>
        (\<exists>g2. handle E g = Some (Inr g2))"
    by (auto simp add: handle_def offer_insurance_handle_def Let_def split: list.splits)
  have turn: "current_state g = PlayersTurnState
        \<and> (\<forall>q. decide_action E q = ''hit'' \<or> decide_action E q = ''stand'') \<longrightarrow>
        (\<exists>r. handle E g = Some r)"
    using players_turn_returns[of E "deck g" "players g"]
    by (auto simp add: handle_def players_turn_handle_def split: sum.splits prod.splits)
  have dturn: "current_state g = DealersTurnState \<longrightarrow> (\<exists>r. handle E g = Some r)"
    by (simp add: handle_def)
  have round: "play_round E g = Some (Inr g') \<longrightarrow> current_state g' = PlacingBetsState"
  proof
    assume "play_round E g = Some (Inr g')"
    then obtain g1 where l: "play_loop E g = Some (Inr g1)"
      and h: "handle E g1 = Some (Inr g')"
      by (auto simp add: play_round_def split: option.splits sum.splits)
    from play_loop_ends[OF l] have "current_state g1 = EndRoundState"
      by simp
    with handle_successor[OF h] show "current_state g' = PlacingBetsState"
      by simp
  qed
  from succ total dealing offer turn dturn round show ?thesis
    by (intro conjI)
qed

theorem handlers_follow_cycle_witness:
  "current_state bob_at_table = PlacingBetsState
   \<and> (\<exists>g2. handle (reference_env natural_deck) bob_at_table = Some (Inr g2))
   \<and> current_state (placing_bets_handle bob_at_table) = DealingState
   \<and> 2 * (length (players (placing_bets_handle bob_at_table)) + 1)
       \<le> length (shuffled (reference_env natural_deck))
   \<and> handle (reference_env natural_deck) (placing_bets_handle bob_at_table)
       = Some (Inr natural_dealt)
   \<and> current_state natural_dealt = OfferInsuranceState
   \<and> dealer_hand (dealer natural_dealt) \<noteq> []
   \<and> (\<exists>g2. handle (reference_env natural_deck) natural_dealt = Some (Inr g2))
   \<and> current_state insurance_offered = PlayersTurnState
   \<and> (\<forall>q. decide_action (reference_env insurance_deck) q = ''hit''
            \<or> decide_action (reference_env insurance_deck) q = ''stand'')
   \<and> (\<exists>r. handle (reference_env insurance_deck) insurance_offered = Some r)
   \<and> current_state drawing_stood = DealersTurnState
   \<and> handle (reference_env drawing_deck) drawing_stood = Some (Inr drawing_drawn)
   \<and> current_state drawing_drawn = EndRoundState
   \<and> (\<exists>g2. handle (reference_env drawing_deck) drawing_drawn = Some (Inr g2))
   \<and> play_round (reference_env natural_deck) bob_at_table = Some (Inr natural_settled)
   \<and> current_state natural_settled = PlacingBetsState"
proof -
  have s0: "current_state bob_at_table = PlacingBetsState"
    by (simp add: bob_at_table_def set_state_def)
  have s1: "current_state (placing_bets_handle bob_at_table) = DealingState"
    by (simp add: placing_bets_handle_def set_state_def)
  have n1: "2 * (length (players (placing_bets_handle bob_at_table)) + 1)
            \<le> length (shuffled (reference_env natural_deck))"
    by (simp add: placing_bets_handle_def set_state_def bob_at_table_def reference_env_sel
          natural_deck_length)
  have h1: "handle (reference_env natural_deck) (placing_bets_handle bob_at_table)
            = Some (Inr natural_dealt)"
    by (simp add: handle_def s1 natural_round_dealing)
  have s2: "current_state natural_dealt = OfferInsuranceState"
    by (simp add: natural_dealt_def)
  have d2: "dealer_hand (dealer natural_dealt) \<noteq> []"
    by (simp add: natural_dealt_def)
  have s3: "current_state insurance_offered = PlayersTurnState"
    by (simp add: insurance_offered_def)
  have a3: "\<forall>q. decide_action (reference_env insurance_deck) q = ''hit''
              \<or> decide_action (reference_env insurance_deck) q = ''stand''"
    by (simp add: reference_env_sel)
  have s4: "current_state drawing_stood = DealersTurnState"
    by (simp add: drawing_stood_def)
  have h4: "handle (reference_env drawing_deck) drawing_stood = Some (Inr drawing_drawn)"
    by (simp add: handle_def s4 drawing_round_dealer)
  have s5: "current_state drawing_drawn = EndRoundState"
    by (simp add: drawing_drawn_def)
  from handlers_follow_cycle [of "reference_env natural_deck" bob_at_table natural_settled]
       handlers_follow_cycle
         [of "reference_env natural_deck" "placing_bets_handle bob_at_table" natural_dealt]
       handlers_follow_cycle [of "reference_env natural_deck" natural_dealt natural_dealt]
       handlers_follow_cycle
         [of "reference_env insurance_deck" insurance_offered insurance_offered]
       handlers_follow_cycle [of "reference_env drawing_deck" drawing_stood drawing_drawn]
       handlers_follow_cycle [of "reference_env drawing_deck" drawing_drawn drawing_drawn]
       s0 s1 n1 h1 s2 d2 s3 a3 s4 h4 s5 natural_round
  show ?thesis
    by simp
qed

section \<open>Joining the session\<close>

lemma handle_frame:
  assumes "handle E g = Some (Inr g')"
  shows "length (players g') = length (players g) \<and> rules g' = rules g"
proof (cases "current_state g")
  case WaitingForPlayersState
  with assms show ?thesis
    by (simp add: handle_def waiting_for_players_handle_def)
next
  case PlacingBetsState
  with assms show ?thesis
    by (auto simp add: handle_def placing_bets_handle_def set_state_def)
next
  case DealingState
  with assms obtain g1 where d: "deal (g\<lparr>deck := shuffled E\<rparr>) = Inr g1"
    and g': "g' = set_state OfferInsuranceState (check_blackjack E g1)"
    by (auto simp add: handle_def dealing_handle_def split: sum.splits)
  from deal_frame[OF d] show ?thesis
    by (simp add: g' set_state_def check_blackjack_rest players_check_blackjack)
next
  case OfferInsuranceState
  with assms show ?thesis
    by (auto simp add: handle_def offer_insurance_handle_def set_state_def Let_def
          split: list.splits)
next
  case PlayersTurnState
  with assms show ?thesis
    by (auto simp add: handle_def players_turn_handle_def set_state_def players_turn_length
          split: option.splits sum.splits prod.splits)
next
  case DealersTurnState
  with assms show ?thesis
    by (auto simp add: handle_def dealers_turn_handle_def set_state_def
          split: sum.splits prod.splits)
next
  case EndRoundState
  with assms show ?thesis
    by (auto simp add: handle_def end_round_handle_def update_rest calculate_winner_def
          set_state_def Let_def)
qed

lemma play_loop_frame:
  assumes "play_loop E g = Some r"
  shows "\<forall>g1. r = Inr g1 \<longrightarrow>
           length (players g1) = length (players g) \<and> rules g1 = rules g"
proof (rule play_loop.raw_induct
        [where P = "\<lambda>E g r. \<forall>g1. r = Inr g1 \<longrightarrow>
                       length (players g1) = length (players g) \<and> rules g1 = rules g",
         OF _ assms],
       goal_cases)
  case (1 pl E g r)
  show ?case
  proof (cases "current_state g = EndRoundState")
    case True
    with 1 show ?thesis by auto
  next
    case False
    show ?thesis
    proof (intro allI impI)
      fix g1 assume r: "r = Inr g1"
      with False 1 obtain g2 where h: "handle E g = Some (Inr g2)"
        and rest: "pl E g2 = Some (Inr g1)"
        by (auto split: option.splits sum.splits)
      from 1 rest handle_frame[OF h]
      show "length (players g1) = length (players g) \<and> rules g1 = rules g"
        by simp
    qed
  qed
qed

lemma play_round_frame:
  assumes "play_round E g = Some (Inr g')"
  shows "length (players g') = length (players g) \<and> rules g' = rules g"
proof -
  from assms obtain g1 where l: "play_loop E g = Some (Inr g1)"
    and h: "handle E g1 = Some (Inr g')"
    by (auto simp add: play_round_def split: option.splits sum.splits)
  from play_loop_frame[OF l] handle_frame[OF h] show ?thesis
    by simp
qed

text \<open>
  Claim C8. Let \<^verbatim>\<open>max_players\<close> be configured. A call of \<^verbatim>\<open>add_player\<close> in a
  state other than \<^verbatim>\<open>WaitingForPlayersState\<close>, or with as many players at the
  table as the limit or more, raises nothing, reports \<^verbatim>\<open>"Game is full."\<close> or
  \<^verbatim>\<open>"Game has already started."\<close> and leaves the game as it was. Every call
  returns, and with a limit that is a whole number it keeps the number of
  players at the limit or below when it was so before; so do the handlers,
  \<^verbatim>\<open>play_round\<close>, \<^verbatim>\<open>set_state\<close> and \<^verbatim>\<open>reset\<close>, none of which changes the number
  of players or the rules.
\<close>

theorem add_player_rejects:
  assumes limit: "rules g ''max_players'' = Some cap"
  shows "(current_state g \<noteq> WaitingForPlayersState \<or> cap \<le> real (length (players g)) \<longrightarrow>
            add_player g (Some p) = Inr (''Game is full.'', g)
            \<or> add_player g (Some p) = Inr (''Game has already started.'', g))
         \<and> (current_state g = WaitingForPlayersState \<and> real (length (players g)) < cap \<longrightarrow>
              add_player g (Some p)
              = Inr (name p @ '' has joined the game.'', g\<lparr>players := players g @ [p]\<rparr>))
         \<and> add_player g None = Inr (''Invalid player.'', g)
         \<and> (\<exists>msg g2. add_player g pl = Inr (msg, g2)
               \<and> rules g2 = rules g
               \<and> (cap \<in> \<int> \<and> real (length (players g)) \<le> cap \<longrightarrow>
                    real (length (players g2)) \<le> cap))
         \<and> (handle E g = Some (Inr g') \<or> play_round E g = Some (Inr g') \<longrightarrow>
              length (players g') = length (players g) \<and> rules g' = rules g)
         \<and> players (set_state s g) = players g \<and> rules (set_state s g) = rules g
         \<and> length (players (reset fresh g)) = length (players g)
         \<and> rules (reset fresh g) = rules g"
proof -
  have step: "cap \<in> \<int> \<Longrightarrow> real (length (players g)) < cap \<Longrightarrow>
              real (length (players g)) + 1 \<le> cap"
  proof -
    assume "cap \<in> \<int>" and less: "real (length (players g)) < cap"
    then obtain k where k: "cap = real_of_int k"
      by (auto elim: Ints_cases)
    with less have "int (length (players g)) < k"
      by linarith
    then have "int (length (players g)) + 1 \<le> k"
      by simp
    with k show ?thesis
      by linarith
  qed
  have a: "current_state g \<noteq> WaitingForPlayersState \<or> cap \<le> real (length (players g)) \<longrightarrow>
            add_player g (Some p) = Inr (''Game is full.'', g)
            \<or> add_player g (Some p) = Inr (''Game has already started.'', g)"
    using limit by (auto simp add: add_player_def)
  have b: "current_state g = WaitingForPlayersState \<and> real (length (players g)) < cap \<longrightarrow>
              add_player g (Some p)
              = Inr (name p @ '' has joined the game.'', g\<lparr>players := players g @ [p]\<rparr>)"
    using limit by (auto simp add: add_player_def waiting_add_player_def)
  have c: "add_player g None = Inr (''Invalid player.'', g)"
    by (simp add: add_player_def)
  have d: "\<exists>msg g2. add_player g pl = Inr (msg, g2)
               \<and> rules g2 = rules g
               \<and> (cap \<in> \<int> \<and> real (length (players g)) \<le> cap \<longrightarrow>
                    real (length (players g2)) \<le> cap)"
    using limit step
    by (cases pl) (auto simp add: add_player_def waiting_add_player_def)
  have e: "handle E g = Some (Inr g') \<or> play_round E g = Some (Inr g') \<longrightarrow>
              length (players g') = length (players g) \<and> rules g' = rules g"
    using handle_frame[of E g g'] play_round_frame[of E g g'] by blast
  have f: "players (set_state s g) = players g \<and> rules (set_state s g) = rules g
         \<and> length (players (reset fresh g)) = length (players g)
         \<and> rules (reset fresh g) = rules g"
    by (simp add: set_state_def reset_def)
  from a b c d e f show ?thesis
    by (intro conjI) blast+
qed

theorem add_player_rejects_witness:
  "rules bob_at_table ''max_players'' = Some 6
   \<and> current_state bob_at_table \<noteq> WaitingForPlayersState
   \<and> add_player bob_at_table (Some (new_player ''Eve'' 500))
       = Inr (''Game has already started.'', bob_at_table)
   \<and> rules (new_game main_rules full_deck) ''max_players'' = Some 6
   \<and> current_state (new_game main_rules full_deck) = WaitingForPlayersState
   \<and> add_player (new_game main_rules full_deck) (Some (new_player ''Bob'' 1000))
       = Inr (''Bob has joined the game.'',
              (new_game main_rules full_deck)\<lparr>players := [new_player ''Bob'' 1000]\<rparr>)"
proof -
  have limit: "rules bob_at_table ''max_players'' = Some 6"
    by (simp add: bob_at_table_def new_game_def set_state_def main_rules_def)
  have st: "current_state bob_at_table \<noteq> WaitingForPlayersState"
    by (simp add: bob_at_table_def set_state_def)
  have n: "real (length (players bob_at_table)) < 6"
    by (simp add: bob_at_table_def set_state_def)
  have limit0: "rules (new_game main_rules full_deck) ''max_players'' = Some 6"
    by (simp add: new_game_def main_rules_def)
  have st0: "current_state (new_game main_rules full_deck) = WaitingForPlayersState"
    by (simp add: new_game_def)
  have n0: "players (new_game main_rules full_deck) = []"
    by (simp add: new_game_def)
  have nm: "name (new_player ''Bob'' 1000) = ''Bob''"
    by (simp add: new_player_def)
  from add_player_rejects [OF limit, where p = "new_player ''Eve'' 500"]
       add_player_rejects [OF limit0, where p = "new_player ''Bob'' 1000"]
       limit st n limit0 st0 n0 nm
  show ?thesis
    by (auto simp add: add_player_def)
qed

section \<open>A round of the high-card game\<close>

lemma high_card_round:
  "high_card_play_round rank_gt high_card_deck
     [\<lparr>player_name = ''Bob'', hands = []\<rparr>, \<lparr>player_name = ''Alice'', hands = []\<rparr>]
     high_card_start
   = Inr (Some \<lparr>player_name = ''Alice'', hands = [[Card King Spades]]\<rparr>,
          [\<lparr>player_name = ''Bob'', hands = [[Card Five Hearts]]\<rparr>,
           \<lparr>player_name = ''Alice'', hands = [[Card King Spades]]\<rparr>],
          high_card_after)"
  by (simp add: high_card_play_round_def high_card_deck_def stacked_def deal_card_def
        draw_def rank_gt_def high_card_after_def)

text \<open>
  Claim C10. A round of the high-card game that returns a winner adds 1 to
  \<^verbatim>\<open>rounds_played\<close> and 1 to the winner's wins (counted from 0 when the winner
  has no entry), leaving the other wins alone; it sets the winner's current
  streak to the old one plus 1 and every other entry of the current streaks to
  0; the winner's longest streak becomes the larger of the old one and the
  new current streak, the other longest streaks stay, so no longest streak
  gets smaller.
\<close>

theorem play_round_updates_streaks:
  assumes "high_card_play_round gt fresh player_list g = Inr (Some wp, ps', g')"
  shows "rounds_played (game_state g') = rounds_played (game_state g) + 1
         \<and> wins (game_state g') (player_name wp)
             = Some (dict_get (wins (game_state g)) (player_name wp) 0 + 1)
         \<and> (\<forall>n. n \<noteq> player_name wp \<longrightarrow> wins (game_state g') n = wins (game_state g) n)
         \<and> current_streak (game_state g') (player_name wp)
             = Some (dict_get (current_streak (game_state g)) (player_name wp) 0 + 1)
         \<and> (\<forall>n. n \<noteq> player_name wp \<longrightarrow>
               current_streak (game_state g') n
               = map_option (\<lambda>v. 0) (current_streak (game_state g) n))
         \<and> max_streak (game_state g') (player_name wp)
             = Some (max (dict_get (max_streak (game_state g)) (player_name wp) 0)
                         (dict_get (current_streak (game_state g)) (player_name wp) 0 + 1))
         \<and> (\<forall>n. n \<noteq> player_name wp \<longrightarrow>
               max_streak (game_state g') n = max_streak (game_state g) n)
         \<and> (\<forall>n v. max_streak (game_state g) n = Some v \<longrightarrow>
               (\<exists>v'. max_streak (game_state g') n = Some v' \<and> v \<le> v'))"
proof -
  from assms obtain d' where
    g': "g' = g\<lparr>hc_deck := d',
                game_state := update_state (game_state g)
                                (round_update (game_state g) (player_name wp))\<rparr>"
    by (auto simp add: high_card_play_round_def split: sum.splits prod.splits option.splits)
  have m: "\<And>n. n \<noteq> player_name wp \<Longrightarrow>
             max_streak (game_state g') n = max_streak (game_state g) n"
    by (simp add: g' update_state_def round_update_def dict_get_def split: option.splits)
  have mw: "max_streak (game_state g') (player_name wp)
             = Some (max (dict_get (max_streak (game_state g)) (player_name wp) 0)
                         (dict_get (current_streak (game_state g)) (player_name wp) 0 + 1))"
    by (simp add: g' update_state_def round_update_def dict_get_def)
  have mono: "\<forall>n v. max_streak (game_state g) n = Some v \<longrightarrow>
               (\<exists>v'. max_streak (game_state g') n = Some v' \<and> v \<le> v')"
  proof (intro allI impI)
    fix n v assume v: "max_streak (game_state g) n = Some v"
    show "\<exists>v'. max_streak (game_state g') n = Some v' \<and> v \<le> v'"
    proof (cases "n = player_name wp")
      case True
      with mw v show ?thesis by (simp add: dict_get_def)
    next
      case False
      with m[OF False] v show ?thesis by simp
    qed
  qed
  have rest: "rounds_played (game_state g') = rounds_played (game_state g) + 1
         \<and> wins (game_state g') (player_name wp)
             = Some (dict_get (wins (game_state g)) (player_name wp) 0 + 1)
         \<and> (\<forall>n. n \<noteq> player_name wp \<longrightarrow> wins (game_state g') n = wins (game_state g) n)
         \<and> current_streak (game_state g') (player_name wp)
             = Some (dict_get (current_streak (game_state g)) (player_name wp) 0 + 1)
         \<and> (\<forall>n. n \<noteq> player_name wp \<longrightarrow>
               current_streak (game_state g') n
               = map_option (\<lambda>v. 0) (current_streak (game_state g) n))"
    by (simp add: g' update_state_def round_update_def dict_get_def)
  from rest mw m mono show ?thesis
    by (intro conjI) blast+
qed

theorem play_round_updates_streaks_witness:
  "high_card_play_round rank_gt high_card_deck
     [\<lparr>player_name = ''Bob'', hands = []\<rparr>, \<lparr>player_name = ''Alice'', hands = []\<rparr>]
     high_card_start
   = Inr (Some \<lparr>player_name = ''Alice'', hands = [[Card King Spades]]\<rparr>,
          [\<lparr>player_name = ''Bob'', hands = [[Card Five Hearts]]\<rparr>,
           \<lparr>player_name = ''Alice'', hands = [[Card King Spades]]\<rparr>],
          high_card_after)
   \<and> rounds_played (game_state high_card_start) = 0
   \<and> rounds_played (game_state high_card_after) = 1
   \<and> wins (game_state high_card_after) ''Alice'' = Some 1
   \<and> wins (game_state high_card_after) ''Bob'' = Some 0
   \<and> current_streak (game_state high_card_after) ''Alice'' = Some 1
   \<and> current_streak (game_state high_card_after) ''Bob'' = Some 0
   \<and> max_streak (game_state high_card_after) ''Alice'' = Some 1"
  using play_round_updates_streaks [OF high_card_round] high_card_round
  by (simp add: high_card_start_def new_high_card_game_state_def dict_get_def)

end
